theory Spec2Isabelle
  imports Complex_Main
begin

section \<open>Python values\<close>

text \<open>
  The values \<open>json.loads\<close> produces.  A \<open>char\<close> stands for one code point of a Python
  \<open>str\<close> (HOL has 256 of them).  A dict is the list of its items; \<open>dict.get\<close> is
  \<open>map_of\<close>, so a key is bound to the first item that carries it.
\<close>

datatype pyfloat = FNum rat | FInf | FNegInf | FNaN

datatype json =
    JNull
  | JBool bool
  | JInt int
  | JFloat pyfloat
  | JStr string
  | JArr "json list"
  | JObj "(string \<times> json) list"

text \<open>The exceptions that escape a handler: \<open>AttributeError\<close> and \<open>TypeError\<close> of
  Python, \<open>ValidationError\<close> of Django's model fields, and \<open>ValueError\<close> of the URL
  router when no route matches.\<close>

datatype py_error = AttributeError | TypeError | ValidationError | ValueError

text \<open>\<open>d.get(k, default)\<close>\<close>

definition dict_get :: "(string \<times> json) list \<Rightarrow> string \<Rightarrow> json \<Rightarrow> json" where
  "dict_get d k dflt = (case map_of d k of None \<Rightarrow> dflt | Some v \<Rightarrow> v)"

text \<open>Truth value testing: \<open>bool(v)\<close>, \<open>not v\<close>.\<close>

fun truthy :: "json \<Rightarrow> bool" where
  "truthy JNull = False"
| "truthy (JBool b) = b"
| "truthy (JInt n) = (n \<noteq> 0)"
| "truthy (JFloat f) = (f \<noteq> FNum 0)"
| "truthy (JStr s) = (s \<noteq> [])"
| "truthy (JArr xs) = (xs \<noteq> [])"
| "truthy (JObj d) = (d \<noteq> [])"

text \<open>\<open>str(n)\<close> for an int: decimal digits, a minus sign for a negative number.\<close>

definition digit :: "nat \<Rightarrow> char" where
  "digit n = ''0123456789'' ! n"

fun show_nat :: "nat \<Rightarrow> string" where
  "show_nat n = (if n < 10 then [digit n] else show_nat (n div 10) @ [digit (n mod 10)])"

declare show_nat.simps [simp del]

definition show_int :: "int \<Rightarrow> string" where
  "show_int i = (if i < 0 then CHR ''-'' # show_nat (nat (- i)) else show_nat (nat i))"

text \<open>
  The library functions the consumer calls and this repository does not define:
  \<open>json.loads\<close> (\<open>None\<close> is \<open>JSONDecodeError\<close>) and the \<open>repr\<close> of floats, lists and
  dicts, which is what \<open>str\<close> and an f-string give for them.
\<close>

record pylib =
  json_loads :: "string \<Rightarrow> json option"
  repr :: "json \<Rightarrow> string"

text \<open>\<open>str(v)\<close>, also what \<open>f"{v}"\<close> renders.\<close>

fun py_str :: "pylib \<Rightarrow> json \<Rightarrow> string" where
  "py_str py (JStr s) = s"
| "py_str py JNull = ''None''"
| "py_str py (JBool b) = (if b then ''True'' else ''False'')"
| "py_str py (JInt n) = show_int n"
| "py_str py v = repr py v"

text \<open>\<open>str.isspace\<close> on one code point below 256, and \<open>str.strip()\<close>.\<close>

definition isspace :: "char \<Rightarrow> bool" where
  "isspace c = ((of_char c :: nat) \<in> {9, 10, 11, 12, 13, 28, 29, 30, 31, 32, 133, 160})"

definition strip :: "string \<Rightarrow> string" where
  "strip s = rev (dropWhile isspace (rev (dropWhile isspace s)))"

section \<open>Database rows (meetings/models.py)\<close>

text \<open>The timestamps (\<open>created_at\<close>, \<open>ended_at\<close>, \<open>joined_at\<close>, \<open>left_at\<close>), titles and
  roles play no part in what follows and are left out.  A participant row is kept joined
  with its user, as \<open>select_related("user")\<close> reads it.  A meeting's key is a
  \<open>UUIDField\<close>; a UUID is written as its 32 hexadecimal digits (\<open>uuid.hex\<close>).\<close>

type_synonym uuid = string

record auth_user =
  u_id :: int
  u_username :: string

record meeting =
  m_id :: uuid
  m_host_id :: int
  m_is_active :: bool

record participant =
  p_meeting_id :: uuid
  p_user_id :: int
  p_username :: string
  p_is_active :: bool

record database =
  users :: "auth_user list"
  meetings :: "meeting list"
  participants :: "participant list"

text \<open>The id of a user is a key the database generates (an auto-incrementing field):
  positive, and below \<open>2 ^ 63\<close> whichever integer field holds it.\<close>

definition db_ok :: "database \<Rightarrow> bool" where
  "db_ok d \<longleftrightarrow> list_all (\<lambda>u. 0 < u_id u \<and> u_id u < 2 ^ 63) (users d)"

text \<open>The path of a WebSocket (meetingapp/routing.py): \<open>meeting_id\<close> is what the group
  \<open>[0-9a-f-]{36}\<close> of the only pattern captured.\<close>

definition route_char :: "char \<Rightarrow> bool" where
  "route_char c \<longleftrightarrow> c \<in> set ''0123456789abcdef-''"

definition websocket_urlpatterns :: "string \<Rightarrow> bool" where
  "websocket_urlpatterns meeting_id \<longleftrightarrow> length meeting_id = 36 \<and> list_all route_char meeting_id"

text \<open>What a \<open>UUIDField\<close> lookup makes of a string (\<open>UUIDField.to_python\<close>, that is
  \<open>uuid.UUID(hex=s)\<close>): the hyphens are dropped wherever they stand, and exactly 32
  characters must remain; \<open>None\<close> is the \<open>ValidationError\<close> raised otherwise.  This is
  what Python does on strings of the characters the route admits, the only ones a consumer
  is ever given.\<close>

definition uuid_of :: "string \<Rightarrow> uuid option" where
  "uuid_of s = (let hex = filter (\<lambda>c. c \<noteq> CHR ''-'') s
                in if length hex = 32 then Some hex else None)"

section \<open>Sessions and the channel layer\<close>

text \<open>\<open>scope["user"]\<close>: \<open>AnonymousUser\<close> has \<open>id = None\<close> and \<open>username = ''\<close>.\<close>

datatype scope_user = AnonymousUser | User int string

fun user_id :: "scope_user \<Rightarrow> json" where
  "user_id AnonymousUser = JNull"
| "user_id (User i n) = JInt i"

fun username :: "scope_user \<Rightarrow> string" where
  "username AnonymousUser = ''''"
| "username (User i n) = n"

text \<open>The messages \<open>group_send\<close> carries; the constructor is the \<open>type\<close> entry, which
  names the handler method.\<close>

datatype event =
    ParticipantJoined json string
  | ParticipantLeft json string
  | ChatMessage json string string
  | HandRaise json string bool
  | WebrtcRelay json string json
  | MeetingEnded

text \<open>What a consumer hands to its WebSocket: \<open>accept()\<close>, \<open>send(json.dumps(v))\<close>,
  \<open>close(code)\<close>.\<close>

datatype ws_out = Accept | Send json | Close "int option"

text \<open>A \<open>MeetingConsumer\<close> instance.  An attribute that is not set yet is \<open>None\<close>
  (\<open>hasattr\<close> is false); for \<open>user\<close>, \<open>None\<close> also stands for Python's \<open>None\<close>, since
  both make \<open>self.user.id\<close> raise \<open>AttributeError\<close>.\<close>

record consumer =
  meeting_id :: "string option"
  group_name :: "string option"
  user :: "scope_user option"
  user_group :: "string option"
  sent :: "ws_out list"

definition new_consumer :: consumer where
  "new_consumer = \<lparr>meeting_id = None, group_name = None, user = None, user_group = None,
     sent = []\<rparr>"

text \<open>The whole relay: the channel layer's groups (group name to channel names) and
  per-channel queues of undelivered events, the consumer of each channel, and the
  database.\<close>

record system =
  groups :: "string \<Rightarrow> string set"
  queue :: "string \<Rightarrow> event list"
  consumers :: "string \<Rightarrow> consumer"
  db :: database

definition init :: "database \<Rightarrow> system" where
  "init d = \<lparr>groups = (\<lambda>g. {}), queue = (\<lambda>c. []), consumers = (\<lambda>c. new_consumer), db = d\<rparr>"

subsection \<open>Channel layer\<close>

text \<open>The layer (channels.layers) refuses a group name with \<open>TypeError\<close> unless it is a
  string of fewer than 100 characters that matches \<open>^[a-zA-Z\d\-_.]+$\<close>.  With
  \<open>re.match\<close>, \<open>$\<close> also matches just before a final newline, so one trailing newline
  is let through.  Channel names are made by the layer itself and always pass its check.\<close>

definition group_char :: "char \<Rightarrow> bool" where
  "group_char c \<longleftrightarrow>
     (let n = (of_char c :: nat)
      in (97 \<le> n \<and> n \<le> 122) \<or> (65 \<le> n \<and> n \<le> 90) \<or> (48 \<le> n \<and> n \<le> 57) \<or>
         n = 45 \<or> n = 95 \<or> n = 46)"

definition valid_group_name :: "string \<Rightarrow> bool" where
  "valid_group_name name \<longleftrightarrow>
     length name < 100 \<and>
     (let body = (if name \<noteq> [] \<and> last name = CHR 0x0A then butlast name else name)
      in body \<noteq> [] \<and> list_all group_char body)"

text \<open>What the three operations do to the layer once the name is let through.\<close>

definition members_add :: "string \<Rightarrow> string \<Rightarrow> system \<Rightarrow> system" where
  "members_add g c st = st\<lparr>groups := (groups st)(g := insert c (groups st g))\<rparr>"

definition members_discard :: "string \<Rightarrow> string \<Rightarrow> system \<Rightarrow> system" where
  "members_discard g c st = st\<lparr>groups := (groups st)(g := groups st g - {c})\<rparr>"

definition deliver :: "string \<Rightarrow> event \<Rightarrow> system \<Rightarrow> system" where
  "deliver g ev st =
     st\<lparr>queue := (\<lambda>c. if c \<in> groups st g then queue st c @ [ev] else queue st c)\<rparr>"

definition group_add :: "string \<Rightarrow> string \<Rightarrow> system \<Rightarrow> py_error + system" where
  "group_add g c st = (if valid_group_name g then Inr (members_add g c st) else Inl TypeError)"

definition group_discard :: "string \<Rightarrow> string \<Rightarrow> system \<Rightarrow> py_error + system" where
  "group_discard g c st =
     (if valid_group_name g then Inr (members_discard g c st) else Inl TypeError)"

definition group_send :: "string \<Rightarrow> event \<Rightarrow> system \<Rightarrow> py_error + system" where
  "group_send g ev st = (if valid_group_name g then Inr (deliver g ev st) else Inl TypeError)"

subsection \<open>Consumer: what it writes to its own socket\<close>

definition ws_write :: "string \<Rightarrow> ws_out list \<Rightarrow> system \<Rightarrow> system" where
  "ws_write c outs st =
     st\<lparr>consumers := (consumers st)(c := (consumers st c)\<lparr>sent := sent (consumers st c) @ outs\<rparr>)\<rparr>"

definition send_error :: "string \<Rightarrow> string \<Rightarrow> system \<Rightarrow> system" where
  "send_error c message st =
     ws_write c [Send (JObj [(''type'', JStr ''error''), (''message'', JStr message)])] st"

subsection \<open>Group message handlers\<close>

definition participant_joined :: "json \<Rightarrow> string \<Rightarrow> ws_out list" where
  "participant_joined uid uname =
     [Send (JObj [(''type'', JStr ''participant_joined''), (''user_id'', uid),
                  (''username'', JStr uname)])]"

definition participant_left :: "json \<Rightarrow> string \<Rightarrow> ws_out list" where
  "participant_left uid uname =
     [Send (JObj [(''type'', JStr ''participant_left''), (''user_id'', uid),
                  (''username'', JStr uname)])]"

definition chat_message :: "json \<Rightarrow> string \<Rightarrow> string \<Rightarrow> ws_out list" where
  "chat_message uid uname message =
     [Send (JObj [(''type'', JStr ''chat''), (''user_id'', uid), (''username'', JStr uname),
                  (''message'', JStr message)])]"

definition hand_raise :: "json \<Rightarrow> string \<Rightarrow> bool \<Rightarrow> ws_out list" where
  "hand_raise uid uname raised =
     [Send (JObj [(''type'', JStr ''hand_raise''), (''user_id'', uid), (''username'', JStr uname),
                  (''raised'', JBool raised)])]"

definition webrtc_relay :: "json \<Rightarrow> string \<Rightarrow> json \<Rightarrow> ws_out list" where
  "webrtc_relay from_user_id from_username signal =
     [Send (JObj [(''type'', JStr ''webrtc_signal''), (''from'', from_user_id),
                  (''from_username'', JStr from_username), (''signal'', signal)])]"

definition meeting_ended :: "ws_out list" where
  "meeting_ended = [Send (JObj [(''type'', JStr ''meeting_ended'')]), Close None]"

fun handler :: "event \<Rightarrow> ws_out list" where
  "handler (ParticipantJoined u n) = participant_joined u n"
| "handler (ParticipantLeft u n) = participant_left u n"
| "handler (ChatMessage u n m) = chat_message u n m"
| "handler (HandRaise u n r) = hand_raise u n r"
| "handler (WebrtcRelay u n s) = webrtc_relay u n s"
| "handler MeetingEnded = meeting_ended"

text \<open>The identity an event names as its origin.\<close>

fun sender :: "event \<Rightarrow> (json \<times> string) option" where
  "sender (ParticipantJoined u n) = Some (u, n)"
| "sender (ParticipantLeft u n) = Some (u, n)"
| "sender (ChatMessage u n m) = Some (u, n)"
| "sender (HandRaise u n r) = Some (u, n)"
| "sender (WebrtcRelay u n s) = Some (u, n)"
| "sender MeetingEnded = None"

text \<open>The consumer of channel \<open>c\<close> takes the oldest event of its queue and runs the
  handler the event names.\<close>

definition dispatch :: "string \<Rightarrow> system \<Rightarrow> system" where
  "dispatch c st =
     (case queue st c of
        [] \<Rightarrow> st
      | ev # rest \<Rightarrow> ws_write c (handler ev) (st\<lparr>queue := (queue st)(c := rest)\<rparr>))"

subsection \<open>Helpers\<close>

text \<open>Both helpers hand \<open>self.meeting_id\<close>, the string of the path, to a lookup on a
  \<open>UUIDField\<close>, with no \<open>try\<close> around it.\<close>

definition check_access :: "database \<Rightarrow> string \<Rightarrow> int \<Rightarrow> py_error + bool" where
  "check_access d mid uid =
     (case uuid_of mid of
        None \<Rightarrow> Inl ValidationError
      | Some key \<Rightarrow>
          (case find (\<lambda>m. m_id m = key \<and> m_is_active m) (meetings d) of
             None \<Rightarrow> Inr False
           | Some m \<Rightarrow>
               if m_host_id m = uid then Inr True
               else Inr (list_ex (\<lambda>p. p_meeting_id p = m_id m \<and> p_user_id p = uid \<and>
                                       p_is_active p) (participants d))))"

definition get_active_participants ::
  "database \<Rightarrow> string \<Rightarrow> int \<Rightarrow> py_error + json list" where
  "get_active_participants d mid uid =
     (case uuid_of mid of
        None \<Rightarrow> Inl ValidationError
      | Some key \<Rightarrow>
          Inr (map (\<lambda>p. JObj [(''user_id'', JInt (p_user_id p)),
                               (''username'', JStr (p_username p))])
                 (filter (\<lambda>p. p_user_id p \<noteq> uid)
                    (filter (\<lambda>p. p_meeting_id p = key \<and> p_is_active p) (participants d)))))"

subsection \<open>Lifecycle\<close>

definition set_attrs :: "string \<Rightarrow> (consumer \<Rightarrow> consumer) \<Rightarrow> system \<Rightarrow> system" where
  "set_attrs c f st = st\<lparr>consumers := (consumers st)(c := f (consumers st c))\<rparr>"

text \<open>An exception ends the handler where it is raised: the result is \<open>Inl\<close> and the
  steps after it do not happen.\<close>

definition connect ::
  "string \<Rightarrow> string \<Rightarrow> scope_user option \<Rightarrow> system \<Rightarrow> py_error + system" where
  "connect c mid scope_user st =
     (let g = ''meeting_'' @ mid;
          st0 = set_attrs c (\<lambda>k. k\<lparr>meeting_id := Some mid, group_name := Some g,
                                      user := scope_user\<rparr>) st
      in case scope_user of
           None \<Rightarrow> Inr (ws_write c [Close (Some 4001)] st0)
         | Some AnonymousUser \<Rightarrow> Inr (ws_write c [Close (Some 4001)] st0)
         | Some (User uid uname) \<Rightarrow>
             (case check_access (db st0) mid uid of
                Inl e \<Rightarrow> Inl e
              | Inr ok \<Rightarrow>
                  if \<not> ok then Inr (ws_write c [Close (Some 4003)] st0)
                  else
                    (case group_add g c st0 of
                       Inl e \<Rightarrow> Inl e
                     | Inr st1 \<Rightarrow>
                         let ug = ''user_'' @ show_int uid;
                             st2 = set_attrs c (\<lambda>k. k\<lparr>user_group := Some ug\<rparr>) st1
                         in (case group_add ug c st2 of
                               Inl e \<Rightarrow> Inl e
                             | Inr st3 \<Rightarrow>
                                 let st4 = ws_write c [Accept] st3
                                 in (case get_active_participants (db st4) mid uid of
                                       Inl e \<Rightarrow> Inl e
                                     | Inr ps \<Rightarrow>
                                         let st5 = ws_write c
                                               [Send (JObj [(''type'', JStr ''room_state''),
                                                            (''participants'', JArr ps)])] st4
                                         in group_send g (ParticipantJoined (JInt uid) uname)
                                              st5)))))"

definition disconnect :: "string \<Rightarrow> int \<Rightarrow> system \<Rightarrow> py_error + system" where
  "disconnect c close_code st =
     (case group_name (consumers st c) of
        None \<Rightarrow> Inr st
      | Some g \<Rightarrow>
          (case user (consumers st c) of
             None \<Rightarrow> Inl AttributeError
           | Some u \<Rightarrow>
               (case group_send g (ParticipantLeft (user_id u) (username u)) st of
                  Inl e \<Rightarrow> Inl e
                | Inr st1 \<Rightarrow>
                    (case group_discard g c st1 of
                       Inl e \<Rightarrow> Inl e
                     | Inr st2 \<Rightarrow>
                         (case user_group (consumers st c) of
                            None \<Rightarrow> Inr st2
                          | Some ug \<Rightarrow> group_discard ug c st2)))))"

text \<open>\<open>receive\<close>, after \<open>json.loads\<close> has succeeded.  \<open>data.get\<close> on a value that is
  not a dict, and \<open>self.group_name\<close> or \<open>self.user.id\<close> on a consumer without them, raise
  \<open>AttributeError\<close>; they are evaluated before \<open>group_send\<close> is entered and looks at the
  group name.\<close>

definition route :: "pylib \<Rightarrow> string \<Rightarrow> json \<Rightarrow> system \<Rightarrow> py_error + system" where
  "route py c data st =
     (case data of
        JObj d \<Rightarrow>
          let msg_type = dict_get d ''type'' JNull;
              k = consumers st c
          in if msg_type = JStr ''chat'' then
               let message = take 500 (strip (py_str py (dict_get d ''message'' (JStr ''''))))
               in if message = [] then Inr st
                  else (case (group_name k, user k) of
                          (Some g, Some u) \<Rightarrow>
                            group_send g (ChatMessage (user_id u) (username u) message) st
                        | _ \<Rightarrow> Inl AttributeError)
             else if msg_type = JStr ''hand_raise'' then
               (case (group_name k, user k) of
                  (Some g, Some u) \<Rightarrow>
                    group_send g (HandRaise (user_id u) (username u)
                      (truthy (dict_get d ''raised'' (JBool False)))) st
                | _ \<Rightarrow> Inl AttributeError)
             else if msg_type = JStr ''webrtc_signal'' then
               let to_user_id = dict_get d ''to'' JNull
               in if \<not> truthy to_user_id then Inr st
                  else (case user k of
                          Some u \<Rightarrow>
                            group_send (''user_'' @ py_str py to_user_id)
                              (WebrtcRelay (user_id u) (username u)
                                 (dict_get d ''signal'' JNull)) st
                        | None \<Rightarrow> Inl AttributeError)
             else Inr st
      | _ \<Rightarrow> Inl AttributeError)"

definition receive :: "pylib \<Rightarrow> string \<Rightarrow> string \<Rightarrow> system \<Rightarrow> py_error + system" where
  "receive py c text_data st =
     (case json_loads py text_data of
        None \<Rightarrow> Inr (send_error c ''invalid JSON'' st)
      | Some data \<Rightarrow> route py c data st)"

section \<open>JWT middleware (meetingapp/middleware.py)\<close>

text \<open>\<open>_get_user\<close>.  The argument \<open>token\<close> is \<open>params.get("token", [None])[0]\<close>;
  \<open>access_token\<close> stands for \<open>AccessToken(token)["user_id"]\<close> of the JWT library, \<open>None\<close>
  when it raises.\<close>

definition get_user :: "(string \<Rightarrow> int option) \<Rightarrow> database \<Rightarrow> string option \<Rightarrow> scope_user" where
  "get_user access_token d token =
     (case token of
        None \<Rightarrow> AnonymousUser
      | Some t \<Rightarrow>
          if t = [] then AnonymousUser
          else (case access_token t of
                  None \<Rightarrow> AnonymousUser
                | Some uid \<Rightarrow>
                    (case find (\<lambda>u. u_id u = uid) (users d) of
                       None \<Rightarrow> AnonymousUser
                     | Some u \<Rightarrow> User (u_id u) (u_username u))))"

text \<open>The ASGI application of asgi.py: the middleware fills \<open>scope["user"]\<close>, the router
  looks for a route (and raises \<open>ValueError\<close> when the path has none, so that no consumer
  runs), then the consumer's \<open>connect\<close> runs.\<close>

definition websocket_connect ::
  "(string \<Rightarrow> int option) \<Rightarrow> string \<Rightarrow> string \<Rightarrow> string option \<Rightarrow> system \<Rightarrow>
     py_error + system" where
  "websocket_connect access_token c mid token st =
     (if websocket_urlpatterns mid
      then connect c mid (Some (get_user access_token (db st) token)) st
      else Inl ValueError)"

section \<open>Ending a meeting (meetings/views.py)\<close>

datatype response = Response json nat

text \<open>\<open>MeetingEndView.post\<close>; \<open>uid\<close> is \<open>request.user.id\<close>, and \<open>mid\<close> is the UUID
  that the \<open><uuid:meeting_id>\<close> converter of urls.py made of the path.\<close>

definition MeetingEndView_post :: "int \<Rightarrow> uuid \<Rightarrow> database \<Rightarrow> response \<times> database" where
  "MeetingEndView_post uid mid d =
     (case find (\<lambda>m. m_id m = mid \<and> m_host_id m = uid) (meetings d) of
        None \<Rightarrow> (Response (JObj [(''error'', JStr ''not found or not your meeting'')]) 404, d)
      | Some m \<Rightarrow>
          if \<not> m_is_active m then
            (Response (JObj [(''error'', JStr ''meeting already ended'')]) 400, d)
          else
            (Response (JObj [(''status'', JStr ''ended'')]) 200,
             d\<lparr>meetings := map (\<lambda>x. if m_id x = m_id m then x\<lparr>m_is_active := False\<rparr> else x)
                              (meetings d),
               participants := map (\<lambda>p. if p_meeting_id p = m_id m \<and> p_is_active p
                                          then p\<lparr>p_is_active := False\<rparr> else p)
                                 (participants d)\<rparr>))"

definition end_meeting :: "int \<Rightarrow> uuid \<Rightarrow> system \<Rightarrow> response \<times> system" where
  "end_meeting uid mid st =
     (case MeetingEndView_post uid mid (db st) of (r, d') \<Rightarrow> (r, st\<lparr>db := d'\<rparr>))"

section \<open>The relay as a transition system\<close>

text \<open>What can happen to the relay: a WebSocket opens on a new channel, a text frame
  arrives, the server reports a connection closed, a consumer takes the next event of its
  queue, the host ends a meeting, or some other HTTP view changes the database.\<close>

datatype action =
    Connect string string "string option"
  | Receive string string
  | Disconnect string int
  | Dispatch string
  | EndMeeting int uuid
  | DbUpdate database

fun step :: "pylib \<Rightarrow> (string \<Rightarrow> int option) \<Rightarrow> action \<Rightarrow> system \<Rightarrow> py_error + system" where
  "step py tok (Connect c mid token) st = websocket_connect tok c mid token st"
| "step py tok (Receive c text_data) st = receive py c text_data st"
| "step py tok (Disconnect c code) st = disconnect c code st"
| "step py tok (Dispatch c) st = Inr (dispatch c st)"
| "step py tok (EndMeeting uid mid) st = Inr (snd (end_meeting uid mid st))"
| "step py tok (DbUpdate d) st = Inr (st\<lparr>db := d\<rparr>)"

text \<open>The server calls \<open>connect\<close> once, on a consumer it has just created, and passes
  frames on only after the consumer has accepted the connection; the database keeps to its
  schema.  A step whose handler raises leads nowhere: the consumer is gone, and nothing of
  the relay has changed.\<close>

fun enabled :: "action \<Rightarrow> system \<Rightarrow> bool" where
  "enabled (Connect c mid token) st = (consumers st c = new_consumer)"
| "enabled (Receive c text_data) st = (Accept \<in> set (sent (consumers st c)))"
| "enabled (DbUpdate d) st = db_ok d"
| "enabled a st = True"

inductive reaches :: "pylib \<Rightarrow> (string \<Rightarrow> int option) \<Rightarrow> system \<Rightarrow> system \<Rightarrow> bool"
  for py :: pylib and tok :: "string \<Rightarrow> int option" where
  here: "reaches py tok st st"
| after: "reaches py tok st st' \<Longrightarrow> enabled a st' \<Longrightarrow> step py tok a st' = Inr st'' \<Longrightarrow>
     reaches py tok st st''"

definition reachable :: "pylib \<Rightarrow> (string \<Rightarrow> int option) \<Rightarrow> system \<Rightarrow> bool" where
  "reachable py tok st \<longleftrightarrow> (\<exists>d. db_ok d \<and> reaches py tok (init d) st)"

text \<open>The invariant of the reachable states: a channel is only in the groups its consumer
  recorded, a consumer that never connected is untouched, and the recorded names are the
  ones \<open>connect\<close> builds.\<close>

definition coherent :: "system \<Rightarrow> bool" where
  "coherent st \<longleftrightarrow>
     (\<forall>c g. c \<in> groups st g \<longrightarrow>
        group_name (consumers st c) = Some g \<or> user_group (consumers st c) = Some g) \<and>
     (\<forall>c. group_name (consumers st c) = None \<longrightarrow>
        consumers st c = new_consumer \<and> queue st c = []) \<and>
     (\<forall>c g. group_name (consumers st c) = Some g \<longrightarrow>
        user (consumers st c) \<noteq> None \<and>
        (\<exists>mid. meeting_id (consumers st c) = Some mid \<and> g = ''meeting_'' @ mid)) \<and>
     (\<forall>c ug. user_group (consumers st c) = Some ug \<longrightarrow>
        group_name (consumers st c) \<noteq> None \<and>
        (\<exists>uid n. user (consumers st c) = Some (User uid n) \<and> ug = ''user_'' @ show_int uid))"

text \<open>The names a consumer recorded are names the layer lets through.\<close>

definition named :: "system \<Rightarrow> bool" where
  "named st \<longleftrightarrow>
     (\<forall>c g. group_name (consumers st c) = Some g \<longrightarrow> valid_group_name g) \<and>
     (\<forall>c ug. user_group (consumers st c) = Some ug \<longrightarrow> valid_group_name ug) \<and>
     db_ok (db st)"

section \<open>A running example\<close>

text \<open>Alice (identity 3) hosts a meeting that Bob (identity 4) has joined.\<close>

definition room :: string where
  "room = ''0a1b2c3d-0000-4000-8000-000000000001''"

definition room_key :: uuid where
  "room_key = ''0a1b2c3d000040008000000000000001''"


definition demo_db :: database where
  "demo_db = \<lparr>
     users = [\<lparr>u_id = 3, u_username = ''alice''\<rparr>, \<lparr>u_id = 4, u_username = ''bob''\<rparr>,
              \<lparr>u_id = 5, u_username = ''carol''\<rparr>],
     meetings = [\<lparr>m_id = room_key, m_host_id = 3, m_is_active = True\<rparr>],
     participants = [\<lparr>p_meeting_id = room_key, p_user_id = 3, p_username = ''alice'',
                      p_is_active = True\<rparr>,
                     \<lparr>p_meeting_id = room_key, p_user_id = 4, p_username = ''bob'',
                      p_is_active = True\<rparr>]\<rparr>"

definition demo_token :: "string \<Rightarrow> int option" where
  "demo_token t = (if t = ''alice-jwt'' then Some 3 else if t = ''bob-jwt'' then Some 4
                   else if t = ''carol-jwt'' then Some 5 else None)"

definition offer :: json where
  "offer = JObj [(''type'', JStr ''offer''), (''sdp'', JStr ''X'')]"

definition ping_frame :: string where
  \<open>ping_frame = ''{"type":"ping"}''\<close>

definition chat_frame :: string where
  \<open>chat_frame = ''{"type":"chat","message":"  hello  "}''\<close>

definition spoofed_chat_frame :: string where
  \<open>spoofed_chat_frame = ''{"user_id":3,"username":"alice","type":"chat","message":"  hello  "}''\<close>

definition signal_to_alice :: string where
  \<open>signal_to_alice = ''{"type":"webrtc_signal","to":3,"signal":{"type":"offer","sdp":"X"}}''\<close>

definition signal_to_bob :: string where
  \<open>signal_to_bob = ''{"type":"webrtc_signal","to":4,"signal":{"type":"offer","sdp":"X"}}''\<close>

definition signal_to_two_words :: string where
  \<open>signal_to_two_words = ''{"type":"webrtc_signal","to":"a b","signal":{"type":"offer","sdp":"X"}}''\<close>

definition signal_without_target :: string where
  \<open>signal_without_target = ''{"type":"webrtc_signal","signal":{"type":"offer","sdp":"X"}}''\<close>

text \<open>\<open>json.loads\<close> on the frames above (anything else counts as not JSON here).\<close>

definition demo_py :: pylib where
  "demo_py = \<lparr>
     json_loads = (\<lambda>s.
        if s = ping_frame then Some (JObj [(''type'', JStr ''ping'')])
        else if s = chat_frame then
          Some (JObj [(''type'', JStr ''chat''), (''message'', JStr ''  hello  '')])
        else if s = spoofed_chat_frame then
          Some (JObj [(''user_id'', JInt 3), (''username'', JStr ''alice''),
                      (''type'', JStr ''chat''), (''message'', JStr ''  hello  '')])
        else if s = signal_to_alice then
          Some (JObj [(''type'', JStr ''webrtc_signal''), (''to'', JInt 3), (''signal'', offer)])
        else if s = signal_to_bob then
          Some (JObj [(''type'', JStr ''webrtc_signal''), (''to'', JInt 4), (''signal'', offer)])
        else if s = signal_to_two_words then
          Some (JObj [(''type'', JStr ''webrtc_signal''), (''to'', JStr ''a b''),
                      (''signal'', offer)])
        else if s = signal_without_target then
          Some (JObj [(''type'', JStr ''webrtc_signal''), (''signal'', offer)])
        else None),
     repr = (\<lambda>v. [])\<rparr>"

definition alice_in :: system where
  "alice_in =
     (case websocket_connect demo_token ''chan-alice'' room (Some ''alice-jwt'') (init demo_db) of
        Inr st \<Rightarrow> st | Inl e \<Rightarrow> init demo_db)"

definition both_in :: system where
  "both_in =
     (case websocket_connect demo_token ''chan-bob'' room (Some ''bob-jwt'') alice_in of
        Inr st \<Rightarrow> st | Inl e \<Rightarrow> alice_in)"

section \<open>Decimal rendering is injective\<close>

lemma digit_inj: "a < 10 \<Longrightarrow> b < 10 \<Longrightarrow> digit a = digit b \<Longrightarrow> a = b"
proof -
  assume a: "a < 10" and b: "b < 10" and e: "digit a = digit b"
  have d: "distinct ''0123456789''" by simp
  have l: "length ''0123456789'' = 10" by simp
  from e have "''0123456789'' ! a = ''0123456789'' ! b" by (simp only: digit_def)
  with nth_eq_iff_index_eq [OF d, of a b] a b l show "a = b" by simp
qed

lemma digit_in: "a < 10 \<Longrightarrow> digit a \<in> set ''0123456789''"
  unfolding digit_def by (rule nth_mem) simp

lemma show_nat_nonempty: "show_nat n \<noteq> []"
  by (subst show_nat.simps) simp

lemma show_nat_digits: "set (show_nat n) \<subseteq> set ''0123456789''"
proof (induction n rule: show_nat.induct)
  case (1 n)
  show ?case
  proof (cases "n < 10")
    case True
    with digit_in [of n] show ?thesis by (subst show_nat.simps) simp
  next
    case False
    have "n mod 10 < 10" by simp
    from digit_in [OF this] "1.IH" [OF False] False show ?thesis
      by (subst show_nat.simps) simp
  qed
qed

lemma show_nat_inj: "show_nat a = show_nat b \<Longrightarrow> a = b"
proof (induction a arbitrary: b rule: show_nat.induct)
  case (1 a)
  show ?case
  proof (cases "a < 10")
    case True
    note a = this
    show ?thesis
    proof (cases "b < 10")
      case True
      from "1.prems" a True have "digit a = digit b"
        by (subst (asm) show_nat.simps, subst (asm) (2) show_nat.simps) simp
      with a True show ?thesis by (rule digit_inj)
    next
      case False
      from "1.prems" a False
      have "[digit a] = show_nat (b div 10) @ [digit (b mod 10)]"
        by (subst (asm) show_nat.simps, subst (asm) (2) show_nat.simps) simp
      with show_nat_nonempty [of "b div 10"] show ?thesis by simp
    qed
  next
    case False
    note a = this
    show ?thesis
    proof (cases "b < 10")
      case True
      from "1.prems" a True
      have "show_nat (a div 10) @ [digit (a mod 10)] = [digit b]"
        by (subst (asm) show_nat.simps, subst (asm) (2) show_nat.simps) simp
      with show_nat_nonempty [of "a div 10"] show ?thesis by simp
    next
      case False
      from "1.prems" a False
      have "show_nat (a div 10) @ [digit (a mod 10)] = show_nat (b div 10) @ [digit (b mod 10)]"
        by (subst (asm) show_nat.simps, subst (asm) (2) show_nat.simps) simp
      then have e: "show_nat (a div 10) = show_nat (b div 10)"
        and d: "digit (a mod 10) = digit (b mod 10)" by simp_all
      from "1.IH" [OF a e] have "a div 10 = b div 10" .
      moreover from d have "a mod 10 = b mod 10" by (intro digit_inj) simp_all
      ultimately show ?thesis by (metis div_mult_mod_eq)
    qed
  qed
qed

lemma show_nat_no_minus: "hd (show_nat n) \<noteq> CHR ''-''"
proof -
  from show_nat_nonempty [of n] have "hd (show_nat n) \<in> set (show_nat n)" by simp
  with show_nat_digits [of n] have "hd (show_nat n) \<in> set ''0123456789''" by blast
  then show ?thesis by auto
qed

lemma show_int_inj: "show_int a = show_int b \<Longrightarrow> a = b"
proof -
  assume e: "show_int a = show_int b"
  consider (nn) "a < 0" "b < 0" | (np) "a < 0" "\<not> b < 0" | (pn) "\<not> a < 0" "b < 0"
    | (pp) "\<not> a < 0" "\<not> b < 0" by blast
  then show "a = b"
  proof cases
    case nn
    with e have "show_nat (nat (- a)) = show_nat (nat (- b))" by (simp add: show_int_def)
    then have "nat (- a) = nat (- b)" by (rule show_nat_inj)
    with nn show ?thesis by simp
  next
    case np
    with e have "CHR ''-'' # show_nat (nat (- a)) = show_nat (nat b)" by (simp add: show_int_def)
    then have "hd (show_nat (nat b)) = CHR ''-''" by (metis list.sel(1))
    with show_nat_no_minus show ?thesis by blast
  next
    case pn
    with e have "show_nat (nat a) = CHR ''-'' # show_nat (nat (- b))" by (simp add: show_int_def)
    then have "hd (show_nat (nat a)) = CHR ''-''" by (metis list.sel(1))
    with show_nat_no_minus show ?thesis by blast
  next
    case pp
    with e have "show_nat (nat a) = show_nat (nat b)" by (simp add: show_int_def)
    then have "nat a = nat b" by (rule show_nat_inj)
    with pp show ?thesis by simp
  qed
qed

section \<open>Names the channel layer lets through\<close>

lemma show_nat_length: "0 < k \<Longrightarrow> n < 10 ^ k \<Longrightarrow> length (show_nat n) \<le> k"
proof (induction n arbitrary: k rule: show_nat.induct)
  case (1 n)
  show ?case
  proof (cases "n < 10")
    case True
    with "1.prems" show ?thesis by (subst show_nat.simps) simp
  next
    case False
    from "1.prems" obtain j where k: "k = Suc j" by (cases k) auto
    have "0 < j"
    proof (rule ccontr)
      assume "\<not> 0 < j"
      with k "1.prems" False show False by simp
    qed
    moreover from "1.prems" k have "n div 10 < 10 ^ j" by (simp add: less_mult_imp_div_less mult.commute)
    ultimately have "length (show_nat (n div 10)) \<le> j" using "1.IH" [OF False] by blast
    with False k show ?thesis by (subst show_nat.simps) simp
  qed
qed

lemma route_char_group_char: "route_char c \<Longrightarrow> group_char c"
  by (auto simp: route_char_def group_char_def)

lemma digit_group_char: "c \<in> set ''0123456789'' \<Longrightarrow> group_char c"
  by (auto simp: group_char_def)

lemma valid_group_nameI:
  assumes "length name < 100" and "name \<noteq> []" and "list_all group_char name"
  shows "valid_group_name name"
proof -
  from assms(2,3) have "group_char (last name)" by (simp add: list_all_iff)
  then have "last name \<noteq> CHR 0x0A" by (auto simp: group_char_def)
  with assms show ?thesis by (simp add: valid_group_name_def)
qed

lemma valid_meeting_group:
  assumes "websocket_urlpatterns mid"
  shows "valid_group_name (''meeting_'' @ mid)"
proof (rule valid_group_nameI)
  from assms show "length (''meeting_'' @ mid) < 100" by (simp add: websocket_urlpatterns_def)
  show "''meeting_'' @ mid \<noteq> []" by simp
  from assms have "list_all group_char mid"
    by (auto simp: websocket_urlpatterns_def list_all_iff intro: route_char_group_char)
  then show "list_all group_char (''meeting_'' @ mid)" by (simp add: group_char_def)
qed

lemma valid_user_group:
  assumes "0 < uid" and "uid < 2 ^ 63"
  shows "valid_group_name (''user_'' @ show_int uid)"
proof (rule valid_group_nameI)
  from assms(1) have s: "show_int uid = show_nat (nat uid)" by (simp add: show_int_def)
  from assms have "nat uid < 2 ^ 63" by (simp add: nat_less_iff)
  also have "(2::nat) ^ 63 < 10 ^ 19" by simp
  finally have "length (show_nat (nat uid)) \<le> 19" by (intro show_nat_length) simp_all
  with s show "length (''user_'' @ show_int uid) < 100" by simp
  show "''user_'' @ show_int uid \<noteq> []" by simp
  have "group_char x" if "x \<in> set (show_nat (nat uid))" for x
  proof -
    from that show_nat_digits [of "nat uid"] have "x \<in> set ''0123456789''" by blast
    then show ?thesis by (rule digit_group_char)
  qed
  then have "list_all group_char (show_nat (nat uid))" by (simp add: list_all_iff)
  with s show "list_all group_char (''user_'' @ show_int uid)" by (simp add: group_char_def)
qed

section \<open>Effect of each operation on the fields of the relay\<close>

lemma members_add_fields [simp]:
  "groups (members_add g c st) = (groups st)(g := insert c (groups st g))"
  "queue (members_add g c st) = queue st"
  "consumers (members_add g c st) = consumers st"
  "db (members_add g c st) = db st"
  by (simp_all add: members_add_def)

lemma members_discard_fields [simp]:
  "groups (members_discard g c st) = (groups st)(g := groups st g - {c})"
  "queue (members_discard g c st) = queue st"
  "consumers (members_discard g c st) = consumers st"
  "db (members_discard g c st) = db st"
  by (simp_all add: members_discard_def)

lemma deliver_fields [simp]:
  "groups (deliver g ev st) = groups st"
  "queue (deliver g ev st) c = (if c \<in> groups st g then queue st c @ [ev] else queue st c)"
  "consumers (deliver g ev st) = consumers st"
  "db (deliver g ev st) = db st"
  by (simp_all add: deliver_def)

lemma ws_write_fields [simp]:
  "groups (ws_write c outs st) = groups st"
  "queue (ws_write c outs st) = queue st"
  "consumers (ws_write c outs st) =
     (consumers st)(c := (consumers st c)\<lparr>sent := sent (consumers st c) @ outs\<rparr>)"
  "db (ws_write c outs st) = db st"
  by (simp_all add: ws_write_def)

lemma set_attrs_fields [simp]:
  "groups (set_attrs c f st) = groups st"
  "queue (set_attrs c f st) = queue st"
  "consumers (set_attrs c f st) = (consumers st)(c := f (consumers st c))"
  "db (set_attrs c f st) = db st"
  by (simp_all add: set_attrs_def)

lemma group_ops_valid:
  assumes "valid_group_name g"
  shows "group_add g c st = Inr (members_add g c st)"
    and "group_discard g c st = Inr (members_discard g c st)"
    and "group_send g ev st = Inr (deliver g ev st)"
  using assms by (simp_all add: group_add_def group_discard_def group_send_def)

lemma group_ops_invalid:
  assumes "\<not> valid_group_name g"
  shows "group_add g c st = Inl TypeError"
    and "group_discard g c st = Inl TypeError"
    and "group_send g ev st = Inl TypeError"
  using assms by (simp_all add: group_add_def group_discard_def group_send_def)

lemma group_send_Inr:
  "group_send g ev st = Inr st' \<Longrightarrow> valid_group_name g \<and> st' = deliver g ev st"
  by (auto simp: group_send_def split: if_splits)

lemma group_add_Inr:
  "group_add g c st = Inr st' \<Longrightarrow> valid_group_name g \<and> st' = members_add g c st"
  by (auto simp: group_add_def split: if_splits)

lemma group_discard_Inr:
  "group_discard g c st = Inr st' \<Longrightarrow> valid_group_name g \<and> st' = members_discard g c st"
  by (auto simp: group_discard_def split: if_splits)

lemma check_access_uuid:
  "check_access d mid uid = Inr ok \<Longrightarrow> \<exists>key. uuid_of mid = Some key"
  by (auto simp: check_access_def split: option.splits)

lemma connect_unauthenticated:
  "u = None \<or> u = Some AnonymousUser \<Longrightarrow>
   connect c mid u st =
     Inr (ws_write c [Close (Some 4001)]
       (set_attrs c (\<lambda>k. k\<lparr>meeting_id := Some mid, group_name := Some (''meeting_'' @ mid),
                               user := u\<rparr>) st))"
  by (auto simp: connect_def Let_def)

lemma connect_forbidden:
  "check_access (db st) mid uid = Inr False \<Longrightarrow>
   connect c mid (Some (User uid n)) st =
     Inr (ws_write c [Close (Some 4003)]
       (set_attrs c (\<lambda>k. k\<lparr>meeting_id := Some mid, group_name := Some (''meeting_'' @ mid),
                               user := Some (User uid n)\<rparr>) st))"
  by (simp add: connect_def Let_def)

lemma connect_raises:
  "check_access (db st) mid uid = Inl e \<Longrightarrow> connect c mid (Some (User uid n)) st = Inl e"
  by (simp add: connect_def Let_def)

lemma connect_accepted:
  assumes "check_access (db st) mid uid = Inr True" and "uuid_of mid = Some key"
    and "valid_group_name (''meeting_'' @ mid)"
    and "valid_group_name (''user_'' @ show_int uid)"
  shows "connect c mid (Some (User uid n)) st =
     Inr (deliver (''meeting_'' @ mid) (ParticipantJoined (JInt uid) n)
       (ws_write c [Send (JObj [(''type'', JStr ''room_state''),
                       (''participants'', JArr
                          (map (\<lambda>p. JObj [(''user_id'', JInt (p_user_id p)),
                                           (''username'', JStr (p_username p))])
                             (filter (\<lambda>p. p_user_id p \<noteq> uid)
                                (filter (\<lambda>p. p_meeting_id p = key \<and> p_is_active p)
                                   (participants (db st))))))])]
         (ws_write c [Accept]
          (members_add (''user_'' @ show_int uid) c
             (set_attrs c (\<lambda>k. k\<lparr>user_group := Some (''user_'' @ show_int uid)\<rparr>)
                (members_add (''meeting_'' @ mid) c
                   (set_attrs c (\<lambda>k. k\<lparr>meeting_id := Some mid,
                                           group_name := Some (''meeting_'' @ mid),
                                           user := Some (User uid n)\<rparr>) st)))))))"
  using assms
  by (simp add: connect_def Let_def group_ops_valid get_active_participants_def)

lemma connect_accepted_names:
  assumes "connect c mid (Some (User uid n)) st = Inr st'"
    and "check_access (db st) mid uid = Inr True"
  shows "valid_group_name (''meeting_'' @ mid) \<and> valid_group_name (''user_'' @ show_int uid)"
proof (rule ccontr)
  assume "\<not> ?thesis"
  then consider "\<not> valid_group_name (''meeting_'' @ mid)"
    | "valid_group_name (''meeting_'' @ mid)" "\<not> valid_group_name (''user_'' @ show_int uid)"
    by blast
  then show False
  proof cases
    case 1
    with assms show False by (simp add: connect_def Let_def group_ops_invalid)
  next
    case 2
    with assms show False by (simp add: connect_def Let_def group_ops_valid group_ops_invalid)
  qed
qed

section \<open>The running example, evaluated\<close>

lemma demo_users:
  "get_user demo_token demo_db None = AnonymousUser"
  "get_user demo_token demo_db (Some ''alice-jwt'') = User 3 ''alice''"
  "get_user demo_token demo_db (Some ''bob-jwt'') = User 4 ''bob''"
  "get_user demo_token demo_db (Some ''carol-jwt'') = User 5 ''carol''"
  by (simp_all add: get_user_def demo_token_def demo_db_def)

lemma demo_room:
  "websocket_urlpatterns room" "uuid_of room = Some room_key"
  "valid_group_name (''meeting_'' @ room)"
proof -
  show r: "websocket_urlpatterns room"
    by (simp add: websocket_urlpatterns_def room_def route_char_def)
  show "uuid_of room = Some room_key" by (simp add: uuid_of_def room_def room_key_def)
  from r show "valid_group_name (''meeting_'' @ room)" by (rule valid_meeting_group)
qed

lemma demo_db_ok: "db_ok demo_db"
  by (simp add: db_ok_def demo_db_def)

lemma demo_access:
  "check_access demo_db room 3 = Inr True" "check_access demo_db room 4 = Inr True"
  "check_access demo_db room 5 = Inr False"
  by (simp_all add: check_access_def demo_room demo_db_def)

lemma demo_names:
  "''meeting_'' @ room \<noteq> ''user_3''" "''meeting_'' @ room \<noteq> ''user_4''"
  "show_int 3 = ''3''" "show_int 4 = ''4''"
  "valid_group_name ''user_3''" "valid_group_name ''user_4''"
  by (simp_all add: room_def show_int_def show_nat.simps digit_def valid_group_name_def
      group_char_def)

lemma db_init [simp]: "db (init d) = d"
  by (simp add: init_def)

lemma alice_in_eq:
  "websocket_connect demo_token ''chan-alice'' room (Some ''alice-jwt'') (init demo_db) =
     Inr alice_in"
  "alice_in =
     deliver (''meeting_'' @ room) (ParticipantJoined (JInt 3) ''alice'')
       (ws_write ''chan-alice'' [Send (JObj [(''type'', JStr ''room_state''),
            (''participants'', JArr [JObj [(''user_id'', JInt 4), (''username'', JStr ''bob'')]])])]
         (ws_write ''chan-alice'' [Accept]
            (members_add ''user_3'' ''chan-alice''
               (set_attrs ''chan-alice'' (\<lambda>k. k\<lparr>user_group := Some ''user_3''\<rparr>)
                  (members_add (''meeting_'' @ room) ''chan-alice''
                     (set_attrs ''chan-alice'' (\<lambda>k. k\<lparr>meeting_id := Some room,
                          group_name := Some (''meeting_'' @ room),
                          user := Some (User 3 ''alice'')\<rparr>) (init demo_db)))))))"
proof -
  have a: "check_access (db (init demo_db)) room 3 = Inr True" by (simp add: demo_access)
  have v: "valid_group_name (''user_'' @ show_int 3)" by (simp add: demo_names)
  have w: "websocket_connect demo_token ''chan-alice'' room (Some ''alice-jwt'') (init demo_db) =
      connect ''chan-alice'' room (Some (User 3 ''alice'')) (init demo_db)"
    by (simp add: websocket_connect_def demo_room(1) demo_users)
  note c = connect_accepted [OF a demo_room(2) demo_room(3) v, of "''chan-alice''" "''alice''"]
  show "websocket_connect demo_token ''chan-alice'' room (Some ''alice-jwt'') (init demo_db) =
     Inr alice_in"
    unfolding alice_in_def w c by simp
  show "alice_in =
     deliver (''meeting_'' @ room) (ParticipantJoined (JInt 3) ''alice'')
       (ws_write ''chan-alice'' [Send (JObj [(''type'', JStr ''room_state''),
            (''participants'', JArr [JObj [(''user_id'', JInt 4), (''username'', JStr ''bob'')]])])]
         (ws_write ''chan-alice'' [Accept]
            (members_add ''user_3'' ''chan-alice''
               (set_attrs ''chan-alice'' (\<lambda>k. k\<lparr>user_group := Some ''user_3''\<rparr>)
                  (members_add (''meeting_'' @ room) ''chan-alice''
                     (set_attrs ''chan-alice'' (\<lambda>k. k\<lparr>meeting_id := Some room,
                          group_name := Some (''meeting_'' @ room),
                          user := Some (User 3 ''alice'')\<rparr>) (init demo_db)))))))"
    unfolding alice_in_def w c by (simp add: demo_names demo_db_def)
qed

lemma alice_in_fields:
  "db alice_in = demo_db"
  "groups alice_in = (\<lambda>g. {})(''meeting_'' @ room := {''chan-alice''}, ''user_3'' := {''chan-alice''})"
  "queue alice_in = (\<lambda>c. [])(''chan-alice'' := [ParticipantJoined (JInt 3) ''alice''])"
  "consumers alice_in = (\<lambda>c. new_consumer)(''chan-alice'' :=
      \<lparr>meeting_id = Some room, group_name = Some (''meeting_'' @ room),
       user = Some (User 3 ''alice''), user_group = Some ''user_3'',
       sent = [Accept, Send (JObj [(''type'', JStr ''room_state''),
                 (''participants'', JArr [JObj [(''user_id'', JInt 4), (''username'', JStr ''bob'')]])])]\<rparr>)"
  unfolding alice_in_eq(2)
  by (auto simp: init_def demo_names new_consumer_def fun_eq_iff)

lemma both_in_eq:
  "websocket_connect demo_token ''chan-bob'' room (Some ''bob-jwt'') alice_in = Inr both_in"
  "both_in =
     deliver (''meeting_'' @ room) (ParticipantJoined (JInt 4) ''bob'')
       (ws_write ''chan-bob'' [Send (JObj [(''type'', JStr ''room_state''),
            (''participants'', JArr [JObj [(''user_id'', JInt 3), (''username'', JStr ''alice'')]])])]
         (ws_write ''chan-bob'' [Accept]
            (members_add ''user_4'' ''chan-bob''
               (set_attrs ''chan-bob'' (\<lambda>k. k\<lparr>user_group := Some ''user_4''\<rparr>)
                  (members_add (''meeting_'' @ room) ''chan-bob''
                     (set_attrs ''chan-bob'' (\<lambda>k. k\<lparr>meeting_id := Some room,
                          group_name := Some (''meeting_'' @ room),
                          user := Some (User 4 ''bob'')\<rparr>) alice_in))))))"
proof -
  have a: "check_access (db alice_in) room 4 = Inr True"
    by (simp add: alice_in_fields demo_access)
  have v: "valid_group_name (''user_'' @ show_int 4)" by (simp add: demo_names)
  have w: "websocket_connect demo_token ''chan-bob'' room (Some ''bob-jwt'') alice_in =
      connect ''chan-bob'' room (Some (User 4 ''bob'')) alice_in"
    by (simp add: websocket_connect_def demo_room(1) demo_users alice_in_fields)
  note c = connect_accepted [OF a demo_room(2) demo_room(3) v, of "''chan-bob''" "''bob''"]
  show "websocket_connect demo_token ''chan-bob'' room (Some ''bob-jwt'') alice_in = Inr both_in"
    unfolding both_in_def w c by simp
  show "both_in =
     deliver (''meeting_'' @ room) (ParticipantJoined (JInt 4) ''bob'')
       (ws_write ''chan-bob'' [Send (JObj [(''type'', JStr ''room_state''),
            (''participants'', JArr [JObj [(''user_id'', JInt 3), (''username'', JStr ''alice'')]])])]
         (ws_write ''chan-bob'' [Accept]
            (members_add ''user_4'' ''chan-bob''
               (set_attrs ''chan-bob'' (\<lambda>k. k\<lparr>user_group := Some ''user_4''\<rparr>)
                  (members_add (''meeting_'' @ room) ''chan-bob''
                     (set_attrs ''chan-bob'' (\<lambda>k. k\<lparr>meeting_id := Some room,
                          group_name := Some (''meeting_'' @ room),
                          user := Some (User 4 ''bob'')\<rparr>) alice_in))))))"
    unfolding both_in_def w c by (simp add: demo_names alice_in_fields demo_db_def)
qed

lemma both_in_fields:
  "db both_in = demo_db"
  "groups both_in = (\<lambda>g. {})(''meeting_'' @ room := {''chan-alice'', ''chan-bob''},
      ''user_3'' := {''chan-alice''}, ''user_4'' := {''chan-bob''})"
  "queue both_in = (\<lambda>c. [])(
      ''chan-alice'' := [ParticipantJoined (JInt 3) ''alice'', ParticipantJoined (JInt 4) ''bob''],
      ''chan-bob'' := [ParticipantJoined (JInt 4) ''bob''])"
  "consumers both_in = (consumers alice_in)(''chan-bob'' :=
      \<lparr>meeting_id = Some room, group_name = Some (''meeting_'' @ room),
       user = Some (User 4 ''bob''), user_group = Some ''user_4'',
       sent = [Accept, Send (JObj [(''type'', JStr ''room_state''),
                 (''participants'', JArr [JObj [(''user_id'', JInt 3), (''username'', JStr ''alice'')]])])]\<rparr>)"
  unfolding both_in_eq(2)
  by (auto simp: alice_in_fields demo_names new_consumer_def fun_eq_iff)

lemma demo_other_spelling:
  "websocket_urlpatterns ''0a1b2c3d0000-4000-8000-00000000-0001''"
  "check_access demo_db ''0a1b2c3d0000-4000-8000-00000000-0001'' 3 = Inr True"
  by (simp_all add: websocket_urlpatterns_def route_char_def check_access_def uuid_of_def
      demo_db_def room_key_def)

section \<open>Handshake and teardown of rejected sessions\<close>




lemma rejected_state:
  assumes "websocket_urlpatterns mid" and "get_user tok (db st) token = u"
    and "u = AnonymousUser \<or> (\<exists>uid n. u = User uid n \<and> check_access (db st) mid uid = Inr False)"
  shows "\<exists>code. (code = 4001 \<or> code = 4003) \<and>
           websocket_connect tok c mid token st =
             Inr (ws_write c [Close (Some code)]
               (set_attrs c (\<lambda>k. k\<lparr>meeting_id := Some mid,
                    group_name := Some (''meeting_'' @ mid), user := Some u\<rparr>) st))"
  using assms
  by (auto simp: websocket_connect_def connect_unauthenticated connect_forbidden)

text \<open>C10: a handshake on a consumer just created that is rejected (closed with 4001 or
  with 4003, no group joined) leaves a session on which the \<open>disconnect\<close> callback still
  returns normally and puts a \<open>participant_left\<close> event on the queue of every member of
  the room group; the frame its handler writes carries the rejected session's user id and
  name, which are \<open>null\<close> and the empty string for \<open>AnonymousUser\<close>.\<close>

theorem rejected_session_broadcasts_left:
  assumes "websocket_urlpatterns mid" and "consumers st c = new_consumer"
    and "get_user tok (db st) token = u"
    and "u = AnonymousUser \<or> (\<exists>uid n. u = User uid n \<and> check_access (db st) mid uid = Inr False)"
  shows "\<exists>st1 st'. websocket_connect tok c mid token st = Inr st1 \<and>
           (sent (consumers st1 c) = [Close (Some 4001)] \<or>
            sent (consumers st1 c) = [Close (Some 4003)]) \<and>
           groups st1 = groups st \<and>
           disconnect c code st1 = Inr st' \<and>
           (\<forall>c'. queue st' c' =
              (if c' \<in> groups st (''meeting_'' @ mid)
               then queue st c' @ [ParticipantLeft (user_id u) (username u)]
               else queue st c')) \<and>
           handler (ParticipantLeft (user_id u) (username u)) =
             [Send (JObj [(''type'', JStr ''participant_left''), (''user_id'', user_id u),
                          (''username'', JStr (username u))])]"
proof -
  from rejected_state [OF assms(1,3,4), of c] obtain k where
    k: "k = 4001 \<or> k = 4003" and
    w: "websocket_connect tok c mid token st =
             Inr (ws_write c [Close (Some k)]
               (set_attrs c (\<lambda>k. k\<lparr>meeting_id := Some mid,
                    group_name := Some (''meeting_'' @ mid), user := Some u\<rparr>) st))"
    by blast
  let ?st1 = "ws_write c [Close (Some k)]
               (set_attrs c (\<lambda>k. k\<lparr>meeting_id := Some mid,
                    group_name := Some (''meeting_'' @ mid), user := Some u\<rparr>) st)"
  let ?g = "''meeting_'' @ mid"
  let ?ev = "ParticipantLeft (user_id u) (username u)"
  have v: "valid_group_name ?g" by (rule valid_meeting_group [OF assms(1)])
  have s: "sent (consumers ?st1 c) = [Close (Some k)]"
    using assms(2) by (simp add: new_consumer_def)
  have d: "disconnect c code ?st1 = Inr (members_discard ?g c (deliver ?g ?ev ?st1))"
    using assms(2) v
    by (simp add: disconnect_def group_send_def group_discard_def new_consumer_def)
  have q: "queue (members_discard ?g c (deliver ?g ?ev ?st1)) c' =
              (if c' \<in> groups st ?g then queue st c' @ [?ev] else queue st c')" for c'
    by simp
  have g: "groups ?st1 = groups st" by simp
  have h: "handler ?ev =
             [Send (JObj [(''type'', JStr ''participant_left''), (''user_id'', user_id u),
                          (''username'', JStr (username u))])]"
    by (simp add: participant_left_def)
  from k s have "sent (consumers ?st1 c) = [Close (Some 4001)] \<or>
            sent (consumers ?st1 c) = [Close (Some 4003)]" by auto
  with w g d q h show ?thesis by blast
qed

theorem rejected_session_broadcasts_left_witness:
  "websocket_urlpatterns room \<and> consumers both_in ''chan-x'' = new_consumer \<and>
   get_user demo_token (db both_in) None = AnonymousUser \<and>
   (\<exists>st1 st'. websocket_connect demo_token ''chan-x'' room None both_in = Inr st1 \<and>
      disconnect ''chan-x'' 1006 st1 = Inr st' \<and>
      queue st' ''chan-alice'' =
        [ParticipantJoined (JInt 3) ''alice'', ParticipantJoined (JInt 4) ''bob'',
         ParticipantLeft JNull ''''] \<and>
      queue st' ''chan-bob'' = [ParticipantJoined (JInt 4) ''bob'', ParticipantLeft JNull '''']) \<and>
   handler (ParticipantLeft JNull '''') =
     [Send (JObj [(''type'', JStr ''participant_left''), (''user_id'', JNull),
                  (''username'', JStr '''')])]"
proof -
  have a: "consumers both_in ''chan-x'' = new_consumer"
    by (simp add: both_in_fields alice_in_fields)
  have b: "get_user demo_token (db both_in) None = AnonymousUser"
    by (simp add: both_in_fields demo_users)
  have c: "AnonymousUser = AnonymousUser \<or>
      (\<exists>uid n. AnonymousUser = User uid n \<and> check_access (db both_in) room uid = Inr False)"
    by simp
  from rejected_session_broadcasts_left [OF demo_room(1) a b c, of 1006]
  obtain st1 st' where
    w: "websocket_connect demo_token ''chan-x'' room None both_in = Inr st1" and
    d: "disconnect ''chan-x'' 1006 st1 = Inr st'" and
    q: "\<forall>c'. queue st' c' =
        (if c' \<in> groups both_in (''meeting_'' @ room)
         then queue both_in c' @ [ParticipantLeft (user_id AnonymousUser) (username AnonymousUser)]
         else queue both_in c')" and
    h: "handler (ParticipantLeft (user_id AnonymousUser) (username AnonymousUser)) =
     [Send (JObj [(''type'', JStr ''participant_left''), (''user_id'', user_id AnonymousUser),
                  (''username'', JStr (username AnonymousUser))])]"
    by blast
  from q have "queue st' ''chan-alice'' =
        [ParticipantJoined (JInt 3) ''alice'', ParticipantJoined (JInt 4) ''bob'',
         ParticipantLeft JNull '''']"
    and "queue st' ''chan-bob'' = [ParticipantJoined (JInt 4) ''bob'', ParticipantLeft JNull '''']"
    by (simp_all add: both_in_fields demo_names)
  with w d h a b demo_room(1) show ?thesis by auto
qed

text \<open>C2 as stated fails: Bob's session receives \<open>{"type":"ping"}\<close>; the relay is
  left exactly as it was, so no \<open>error\<close> frame is written.\<close>

theorem unknown_type_is_ignored:
  "json_loads demo_py ping_frame = Some (JObj [(''type'', JStr ''ping'')]) \<and>
   receive demo_py ''chan-bob'' ping_frame both_in = Inr both_in \<and>
   sent (consumers both_in ''chan-bob'') =
     [Accept, Send (JObj [(''type'', JStr ''room_state''),
        (''participants'', JArr [JObj [(''user_id'', JInt 3), (''username'', JStr ''alice'')]])])]"
  by (simp add: demo_py_def receive_def route_def dict_get_def both_in_fields)

text \<open>C2, amended: text that is not JSON is answered on this session only with the frame
  \<open>{"type":"error","message":"invalid JSON"}\<close>, nothing is broadcast and nothing is
  closed (groups and queues are those of before, and only this consumer's output grows, by
  that one frame); a JSON object whose type is none of \<open>chat\<close>, \<open>hand_raise\<close>,
  \<open>webrtc_signal\<close> changes nothing at all: no frame, no broadcast, no close.\<close>

theorem malformed_frames:
  "(json_loads py text_data = None \<longrightarrow>
      receive py c text_data st =
        Inr (st\<lparr>consumers := (consumers st)(c := (consumers st c)\<lparr>sent := sent (consumers st c) @
               [Send (JObj [(''type'', JStr ''error''), (''message'', JStr ''invalid JSON'')])]\<rparr>)\<rparr>)) \<and>
   (json_loads py text_data = Some (JObj d) \<and>
    dict_get d ''type'' JNull \<notin> {JStr ''chat'', JStr ''hand_raise'', JStr ''webrtc_signal''} \<longrightarrow>
      receive py c text_data st = Inr st)"
  by (auto simp: receive_def route_def send_error_def ws_write_def)

theorem malformed_frames_witness:
  "json_loads demo_py ''{'' = None \<and>
   receive demo_py ''chan-bob'' ''{'' both_in =
     Inr (both_in\<lparr>consumers := (consumers both_in)(''chan-bob'' := (consumers both_in ''chan-bob'')
           \<lparr>sent := sent (consumers both_in ''chan-bob'') @
              [Send (JObj [(''type'', JStr ''error''), (''message'', JStr ''invalid JSON'')])]\<rparr>)\<rparr>) \<and>
   json_loads demo_py ping_frame = Some (JObj [(''type'', JStr ''ping'')]) \<and>
   dict_get [(''type'', JStr ''ping'')] ''type'' JNull
     \<notin> {JStr ''chat'', JStr ''hand_raise'', JStr ''webrtc_signal''} \<and>
   receive demo_py ''chan-bob'' ping_frame both_in = Inr both_in"
proof -
  have a: "json_loads demo_py ''{'' = None"
    by (simp add: demo_py_def ping_frame_def chat_frame_def spoofed_chat_frame_def
        signal_to_alice_def signal_to_bob_def signal_to_two_words_def
        signal_without_target_def)
  have b: "json_loads demo_py ping_frame = Some (JObj [(''type'', JStr ''ping'')])"
    by (simp add: demo_py_def)
  have c: "dict_get [(''type'', JStr ''ping'')] ''type'' JNull
     \<notin> {JStr ''chat'', JStr ''hand_raise'', JStr ''webrtc_signal''}"
    by (simp add: dict_get_def)
  from malformed_frames [of demo_py "''{''" "''chan-bob''" both_in "[(''type'', JStr ''ping'')]"]
    malformed_frames [of demo_py ping_frame "''chan-bob''" both_in "[(''type'', JStr ''ping'')]"]
    a b c
  show ?thesis by simp
qed

section \<open>Routing\<close>

lemma route_chat:
  "dict_get d ''type'' JNull = JStr ''chat'' \<Longrightarrow>
   route py c (JObj d) st =
     (if take 500 (strip (py_str py (dict_get d ''message'' (JStr '''')))) = [] then Inr st
      else case (group_name (consumers st c), user (consumers st c)) of
             (Some g, Some u) \<Rightarrow>
               group_send g (ChatMessage (user_id u) (username u)
                 (take 500 (strip (py_str py (dict_get d ''message'' (JStr '''')))))) st
           | _ \<Rightarrow> Inl AttributeError)"
  by (simp add: route_def Let_def)

lemma route_hand_raise:
  "dict_get d ''type'' JNull = JStr ''hand_raise'' \<Longrightarrow>
   route py c (JObj d) st =
     (case (group_name (consumers st c), user (consumers st c)) of
        (Some g, Some u) \<Rightarrow>
          group_send g (HandRaise (user_id u) (username u)
            (truthy (dict_get d ''raised'' (JBool False)))) st
      | _ \<Rightarrow> Inl AttributeError)"
  by (simp add: route_def Let_def)

lemma route_webrtc_signal:
  "dict_get d ''type'' JNull = JStr ''webrtc_signal'' \<Longrightarrow>
   route py c (JObj d) st =
     (if \<not> truthy (dict_get d ''to'' JNull) then Inr st
      else case user (consumers st c) of
             Some u \<Rightarrow>
               group_send (''user_'' @ py_str py (dict_get d ''to'' JNull))
                 (WebrtcRelay (user_id u) (username u) (dict_get d ''signal'' JNull)) st
           | None \<Rightarrow> Inl AttributeError)"
  by (simp add: route_def Let_def)

lemma route_other:
  "dict_get d ''type'' JNull \<notin> {JStr ''chat'', JStr ''hand_raise'', JStr ''webrtc_signal''} \<Longrightarrow>
   route py c (JObj d) st = Inr st"
  by (simp add: route_def Let_def)

lemma route_effect:
  assumes "route py c (JObj d) st = Inr st'" and "user (consumers st c) = Some u"
  shows "st' = st \<or>
          (\<exists>g ev. st' = deliver g ev st \<and> sender ev = Some (user_id u, username u))"
proof -
  consider (chat) "dict_get d ''type'' JNull = JStr ''chat''"
    | (hand) "dict_get d ''type'' JNull = JStr ''hand_raise''"
    | (sig) "dict_get d ''type'' JNull = JStr ''webrtc_signal''"
    | (other) "dict_get d ''type'' JNull \<notin> {JStr ''chat'', JStr ''hand_raise'', JStr ''webrtc_signal''}"
    by blast
  then show ?thesis
  proof cases
    case chat
    show ?thesis
    proof (cases "group_name (consumers st c)")
      case None
      with assms chat show ?thesis by (simp add: route_chat split: if_splits)
    next
      case (Some g)
      let ?ev = "ChatMessage (user_id u) (username u)
                      (take 500 (strip (py_str py (dict_get d ''message'' (JStr '''')))))"
      from Some assms chat have "st' = st \<or> group_send g ?ev st = Inr st'"
        by (simp add: route_chat split: if_splits)
      then have "st' = st \<or> st' = deliver g ?ev st" by (auto dest: group_send_Inr)
      then show ?thesis by (metis sender.simps(3))
    qed
  next
    case hand
    show ?thesis
    proof (cases "group_name (consumers st c)")
      case None
      with assms hand show ?thesis by (simp add: route_hand_raise)
    next
      case (Some g)
      let ?ev = "HandRaise (user_id u) (username u)
                 (truthy (dict_get d ''raised'' (JBool False)))"
      from Some assms hand have "group_send g ?ev st = Inr st'"
        by (simp add: route_hand_raise)
      then have "st' = deliver g ?ev st" by (auto dest: group_send_Inr)
      then show ?thesis by (metis sender.simps(4))
    qed
  next
    case sig
    let ?g = "''user_'' @ py_str py (dict_get d ''to'' JNull)"
    let ?ev = "WebrtcRelay (user_id u) (username u) (dict_get d ''signal'' JNull)"
    from sig assms have "st' = st \<or> group_send ?g ?ev st = Inr st'"
      by (simp add: route_webrtc_signal split: if_splits)
    then have "st' = st \<or> st' = deliver ?g ?ev st" by (auto dest: group_send_Inr)
    then show ?thesis by (metis sender.simps(5))
  next
    case other
    with assms show ?thesis by (simp add: route_other)
  qed
qed

lemma route_depends:
  assumes "\<forall>k \<in> {''type'', ''message'', ''raised'', ''to'', ''signal''}. map_of d1 k = map_of d2 k"
  shows "route py c (JObj d1) st = route py c (JObj d2) st"
proof -
  from assms have eqs: "dict_get d1 ''type'' x = dict_get d2 ''type'' x"
    "dict_get d1 ''message'' x = dict_get d2 ''message'' x"
    "dict_get d1 ''raised'' x = dict_get d2 ''raised'' x"
    "dict_get d1 ''to'' x = dict_get d2 ''to'' x"
    "dict_get d1 ''signal'' x = dict_get d2 ''signal'' x" for x
    by (simp_all add: dict_get_def)
  show ?thesis
    by (simp only: route_def json.case eqs)
qed

section \<open>The invariant holds in every reachable state\<close>

lemma coherent_init: "coherent (init d)"
  by (simp add: coherent_def init_def new_consumer_def)

lemma coherent_groups:
  "coherent st \<Longrightarrow> c \<in> groups st g \<Longrightarrow>
   group_name (consumers st c) = Some g \<or> user_group (consumers st c) = Some g"
  by (simp add: coherent_def)

lemma coherent_unconnected:
  "coherent st \<Longrightarrow> group_name (consumers st c) = None \<Longrightarrow>
   consumers st c = new_consumer \<and> queue st c = []"
  by (simp add: coherent_def)

lemma coherent_group_name:
  "coherent st \<Longrightarrow> group_name (consumers st c) = Some g \<Longrightarrow>
   user (consumers st c) \<noteq> None \<and>
   (\<exists>mid. meeting_id (consumers st c) = Some mid \<and> g = ''meeting_'' @ mid)"
  by (simp add: coherent_def)

lemma coherent_user_group:
  "coherent st \<Longrightarrow> user_group (consumers st c) = Some ug \<Longrightarrow>
   group_name (consumers st c) \<noteq> None \<and>
   (\<exists>uid n. user (consumers st c) = Some (User uid n) \<and> ug = ''user_'' @ show_int uid)"
  by (simp add: coherent_def)

lemma coherentI:
  assumes "\<And>c g. c \<in> groups st g \<Longrightarrow>
             group_name (consumers st c) = Some g \<or> user_group (consumers st c) = Some g"
    and "\<And>c. group_name (consumers st c) = None \<Longrightarrow>
           consumers st c = new_consumer \<and> queue st c = []"
    and "\<And>c g. group_name (consumers st c) = Some g \<Longrightarrow>
           user (consumers st c) \<noteq> None \<and>
           (\<exists>mid. meeting_id (consumers st c) = Some mid \<and> g = ''meeting_'' @ mid)"
    and "\<And>c ug. user_group (consumers st c) = Some ug \<Longrightarrow>
           group_name (consumers st c) \<noteq> None \<and>
           (\<exists>uid n. user (consumers st c) = Some (User uid n) \<and> ug = ''user_'' @ show_int uid)"
  shows "coherent st"
  unfolding coherent_def using assms by blast

lemma coherent_member:
  assumes "coherent st" and "c \<in> groups st g"
  shows "group_name (consumers st c) \<noteq> None"
proof -
  from coherent_groups [OF assms] show ?thesis
  proof
    assume "group_name (consumers st c) = Some g"
    then show ?thesis by simp
  next
    assume "user_group (consumers st c) = Some g"
    from coherent_user_group [OF assms(1) this] show ?thesis by simp
  qed
qed

lemma coherent_same_consumers:
  assumes "coherent st" and "consumers st' = consumers st"
    and "\<And>c g. c \<in> groups st' g \<Longrightarrow> c \<in> groups st g"
    and "\<And>c. group_name (consumers st c) = None \<Longrightarrow> queue st' c = queue st c"
  shows "coherent st'"
proof (rule coherentI)
  fix c g
  assume "c \<in> groups st' g"
  then have "c \<in> groups st g" by (rule assms(3))
  from coherent_groups [OF assms(1) this]
  show "group_name (consumers st' c) = Some g \<or> user_group (consumers st' c) = Some g"
    by (simp add: assms(2))
next
  fix c
  assume "group_name (consumers st' c) = None"
  then have n: "group_name (consumers st c) = None" by (simp add: assms(2))
  from coherent_unconnected [OF assms(1) n] assms(4) [OF n]
  show "consumers st' c = new_consumer \<and> queue st' c = []" by (simp add: assms(2))
next
  fix c g
  assume "group_name (consumers st' c) = Some g"
  then have "group_name (consumers st c) = Some g" by (simp add: assms(2))
  from coherent_group_name [OF assms(1) this]
  show "user (consumers st' c) \<noteq> None \<and>
        (\<exists>mid. meeting_id (consumers st' c) = Some mid \<and> g = ''meeting_'' @ mid)"
    by (simp add: assms(2))
next
  fix c ug
  assume "user_group (consumers st' c) = Some ug"
  then have "user_group (consumers st c) = Some ug" by (simp add: assms(2))
  from coherent_user_group [OF assms(1) this]
  show "group_name (consumers st' c) \<noteq> None \<and>
        (\<exists>uid n. user (consumers st' c) = Some (User uid n) \<and> ug = ''user_'' @ show_int uid)"
    by (simp add: assms(2))
qed

lemma coherent_group_send:
  assumes "coherent st"
  shows "coherent (deliver g ev st)"
proof (rule coherent_same_consumers [OF assms])
  fix c
  assume "group_name (consumers st c) = None"
  then have "c \<notin> groups st g" using coherent_member [OF assms, of c g] by auto
  then show "queue (deliver g ev st) c = queue st c" by simp
qed simp_all

lemma coherent_group_discard:
  assumes "coherent st"
  shows "coherent (members_discard g c st)"
proof (rule coherent_same_consumers [OF assms])
  fix c' g'
  assume "c' \<in> groups (members_discard g c st) g'"
  then show "c' \<in> groups st g'" by (simp split: if_splits)
qed simp_all

lemma coherent_db: "coherent st \<Longrightarrow> coherent (st\<lparr>db := d\<rparr>)"
  by (simp add: coherent_def)

lemma coherent_ws_write:
  assumes "coherent st" and "group_name (consumers st c) \<noteq> None"
  shows "coherent (ws_write c outs st)"
proof (rule coherentI)
  fix c' g
  assume "c' \<in> groups (ws_write c outs st) g"
  then have "c' \<in> groups st g" by simp
  from coherent_groups [OF assms(1) this]
  show "group_name (consumers (ws_write c outs st) c') = Some g \<or>
        user_group (consumers (ws_write c outs st) c') = Some g" by auto
next
  fix c'
  assume n: "group_name (consumers (ws_write c outs st) c') = None"
  with assms(2) have "c' \<noteq> c" by auto
  with n coherent_unconnected [OF assms(1), of c']
  show "consumers (ws_write c outs st) c' = new_consumer \<and> queue (ws_write c outs st) c' = []"
    by simp
next
  fix c' g
  assume "group_name (consumers (ws_write c outs st) c') = Some g"
  then have "group_name (consumers st c') = Some g" by (simp split: if_splits)
  from coherent_group_name [OF assms(1) this]
  show "user (consumers (ws_write c outs st) c') \<noteq> None \<and>
        (\<exists>mid. meeting_id (consumers (ws_write c outs st) c') = Some mid \<and> g = ''meeting_'' @ mid)"
    by auto
next
  fix c' ug
  assume "user_group (consumers (ws_write c outs st) c') = Some ug"
  then have "user_group (consumers st c') = Some ug" by (simp split: if_splits)
  from coherent_user_group [OF assms(1) this]
  show "group_name (consumers (ws_write c outs st) c') \<noteq> None \<and>
        (\<exists>uid n. user (consumers (ws_write c outs st) c') = Some (User uid n) \<and>
                 ug = ''user_'' @ show_int uid)"
    by auto
qed

lemma coherent_fresh:
  assumes "coherent st" and "consumers st c = new_consumer"
  shows "c \<notin> groups st g" and "queue st c = []"
proof -
  from assms(2) have n: "group_name (consumers st c) = None" by (simp add: new_consumer_def)
  with coherent_member [OF assms(1), of c g] show "c \<notin> groups st g" by auto
  from coherent_unconnected [OF assms(1) n] show "queue st c = []" by simp
qed

lemma coherent_group_add:
  assumes "coherent st"
    and "group_name (consumers st c) = Some g \<or> user_group (consumers st c) = Some g"
  shows "coherent (members_add g c st)"
proof (rule coherentI)
  fix c' g'
  assume m: "c' \<in> groups (members_add g c st) g'"
  show "group_name (consumers (members_add g c st) c') = Some g' \<or>
        user_group (consumers (members_add g c st) c') = Some g'"
  proof (cases "c' = c \<and> g' = g")
    case True
    with assms(2) show ?thesis by simp
  next
    case False
    with m have "c' \<in> groups st g'" by (auto split: if_splits)
    from coherent_groups [OF assms(1) this] show ?thesis by simp
  qed
next
  fix c'
  assume "group_name (consumers (members_add g c st) c') = None"
  then have "group_name (consumers st c') = None" by simp
  from coherent_unconnected [OF assms(1) this]
  show "consumers (members_add g c st) c' = new_consumer \<and> queue (members_add g c st) c' = []"
    by simp
next
  fix c' g'
  assume "group_name (consumers (members_add g c st) c') = Some g'"
  then have "group_name (consumers st c') = Some g'" by simp
  from coherent_group_name [OF assms(1) this]
  show "user (consumers (members_add g c st) c') \<noteq> None \<and>
        (\<exists>mid. meeting_id (consumers (members_add g c st) c') = Some mid \<and> g' = ''meeting_'' @ mid)"
    by simp
next
  fix c' ug
  assume "user_group (consumers (members_add g c st) c') = Some ug"
  then have "user_group (consumers st c') = Some ug" by simp
  from coherent_user_group [OF assms(1) this]
  show "group_name (consumers (members_add g c st) c') \<noteq> None \<and>
        (\<exists>uid n. user (consumers (members_add g c st) c') = Some (User uid n) \<and>
                 ug = ''user_'' @ show_int uid)"
    by simp
qed

lemma coherent_connect_attrs:
  assumes "coherent st" and "consumers st c = new_consumer"
  shows "coherent (set_attrs c (\<lambda>k. k\<lparr>meeting_id := Some mid, group_name := Some (''meeting_'' @ mid),
                                  user := Some u\<rparr>) st)"
    (is "coherent ?st'")
proof (rule coherentI)
  fix c' g
  assume "c' \<in> groups ?st' g"
  then have m: "c' \<in> groups st g" by simp
  with coherent_fresh(1) [OF assms] have "c' \<noteq> c" by auto
  with coherent_groups [OF assms(1) m]
  show "group_name (consumers ?st' c') = Some g \<or> user_group (consumers ?st' c') = Some g"
    by simp
next
  fix c'
  assume n: "group_name (consumers ?st' c') = None"
  then have "c' \<noteq> c" by auto
  with n coherent_unconnected [OF assms(1), of c']
  show "consumers ?st' c' = new_consumer \<and> queue ?st' c' = []" by simp
next
  fix c' g
  assume g: "group_name (consumers ?st' c') = Some g"
  show "user (consumers ?st' c') \<noteq> None \<and>
        (\<exists>m. meeting_id (consumers ?st' c') = Some m \<and> g = ''meeting_'' @ m)"
  proof (cases "c' = c")
    case True
    with g show ?thesis by auto
  next
    case False
    with g coherent_group_name [OF assms(1), of c' g] show ?thesis by simp
  qed
next
  fix c' ug
  assume ug: "user_group (consumers ?st' c') = Some ug"
  show "group_name (consumers ?st' c') \<noteq> None \<and>
        (\<exists>uid n. user (consumers ?st' c') = Some (User uid n) \<and> ug = ''user_'' @ show_int uid)"
  proof (cases "c' = c")
    case True
    with ug assms(2) show ?thesis by (simp add: new_consumer_def)
  next
    case False
    with ug coherent_user_group [OF assms(1), of c' ug] show ?thesis by simp
  qed
qed

lemma coherent_user_group_attr:
  assumes "coherent st" and "group_name (consumers st c) \<noteq> None"
    and "user (consumers st c) = Some (User uid n)"
    and "user_group (consumers st c) = None"
  shows "coherent (set_attrs c (\<lambda>k. k\<lparr>user_group := Some (''user_'' @ show_int uid)\<rparr>) st)"
    (is "coherent ?st'")
proof (rule coherentI)
  fix c' g
  assume "c' \<in> groups ?st' g"
  then have m: "c' \<in> groups st g" by simp
  from coherent_groups [OF assms(1) m] assms(4)
  show "group_name (consumers ?st' c') = Some g \<or> user_group (consumers ?st' c') = Some g"
    by (cases "c' = c") auto
next
  fix c'
  assume n: "group_name (consumers ?st' c') = None"
  with assms(2) have "c' \<noteq> c" by auto
  with n coherent_unconnected [OF assms(1), of c']
  show "consumers ?st' c' = new_consumer \<and> queue ?st' c' = []" by simp
next
  fix c' g
  assume "group_name (consumers ?st' c') = Some g"
  then have "group_name (consumers st c') = Some g" by (simp split: if_splits)
  from coherent_group_name [OF assms(1) this]
  show "user (consumers ?st' c') \<noteq> None \<and>
        (\<exists>m. meeting_id (consumers ?st' c') = Some m \<and> g = ''meeting_'' @ m)"
    by auto
next
  fix c' ug
  assume ug: "user_group (consumers ?st' c') = Some ug"
  show "group_name (consumers ?st' c') \<noteq> None \<and>
        (\<exists>uid n. user (consumers ?st' c') = Some (User uid n) \<and> ug = ''user_'' @ show_int uid)"
  proof (cases "c' = c")
    case True
    with ug assms(2,3) show ?thesis by auto
  next
    case False
    with ug coherent_user_group [OF assms(1), of c' ug] show ?thesis by simp
  qed
qed

lemma connect_cases:
  assumes "connect c mid (Some u) st = Inr st'"
  obtains (unauthenticated) "u = AnonymousUser"
      "st' = ws_write c [Close (Some 4001)]
         (set_attrs c (\<lambda>k. k\<lparr>meeting_id := Some mid, group_name := Some (''meeting_'' @ mid),
                                 user := Some u\<rparr>) st)"
    | (forbidden) uid n where "u = User uid n" "check_access (db st) mid uid = Inr False"
      "st' = ws_write c [Close (Some 4003)]
         (set_attrs c (\<lambda>k. k\<lparr>meeting_id := Some mid, group_name := Some (''meeting_'' @ mid),
                                 user := Some u\<rparr>) st)"
    | (accepted) uid n key where "u = User uid n" "check_access (db st) mid uid = Inr True"
      "uuid_of mid = Some key"
      "valid_group_name (''meeting_'' @ mid)" "valid_group_name (''user_'' @ show_int uid)"
      "st' = deliver (''meeting_'' @ mid) (ParticipantJoined (JInt uid) n)
       (ws_write c [Send (JObj [(''type'', JStr ''room_state''),
                       (''participants'', JArr
                          (map (\<lambda>p. JObj [(''user_id'', JInt (p_user_id p)),
                                           (''username'', JStr (p_username p))])
                             (filter (\<lambda>p. p_user_id p \<noteq> uid)
                                (filter (\<lambda>p. p_meeting_id p = key \<and> p_is_active p)
                                   (participants (db st))))))])]
         (ws_write c [Accept]
          (members_add (''user_'' @ show_int uid) c
             (set_attrs c (\<lambda>k. k\<lparr>user_group := Some (''user_'' @ show_int uid)\<rparr>)
                (members_add (''meeting_'' @ mid) c
                   (set_attrs c (\<lambda>k. k\<lparr>meeting_id := Some mid,
                                           group_name := Some (''meeting_'' @ mid),
                                           user := Some (User uid n)\<rparr>) st))))))"
proof (cases u)
  case AnonymousUser
  with assms unauthenticated show ?thesis by (simp add: connect_unauthenticated)
next
  case (User uid n)
  show ?thesis
  proof (cases "check_access (db st) mid uid")
    case (Inl e)
    with assms User show ?thesis by (simp add: connect_raises)
  next
    case (Inr ok)
    show ?thesis
    proof (cases ok)
      case False
      with Inr assms User forbidden show ?thesis by (simp add: connect_forbidden)
    next
      case True
      with Inr have a: "check_access (db st) mid uid = Inr True" by simp
      from check_access_uuid [OF a] obtain key where k: "uuid_of mid = Some key" ..
      from connect_accepted_names [OF assms [unfolded User] a]
      have v: "valid_group_name (''meeting_'' @ mid)" "valid_group_name (''user_'' @ show_int uid)"
        by simp_all
      from assms User connect_accepted [OF a k v, of c n] accepted [OF User a k v]
      show ?thesis by simp
    qed
  qed
qed

lemma coherent_connect:
  assumes "coherent st" and "consumers st c = new_consumer"
    and "connect c mid (Some u) st = Inr st'"
  shows "coherent st'"
proof -
  let ?g = "''meeting_'' @ mid"
  let ?st0 = "set_attrs c (\<lambda>k. k\<lparr>meeting_id := Some mid, group_name := Some ?g,
                                  user := Some u\<rparr>) st"
  have w0: "coherent ?st0" by (rule coherent_connect_attrs [OF assms(1,2)])
  have g0: "group_name (consumers ?st0 c) \<noteq> None" by simp
  from assms(3) show ?thesis
  proof (cases rule: connect_cases)
    case unauthenticated
    with coherent_ws_write [OF w0 g0, of "[Close (Some 4001)]"] show ?thesis by simp
  next
    case (forbidden uid n)
    with coherent_ws_write [OF w0 g0, of "[Close (Some 4003)]"] show ?thesis by simp
  next
    case (accepted uid n key)
    let ?ug = "''user_'' @ show_int uid"
    let ?st1 = "members_add ?g c ?st0"
    let ?st2 = "set_attrs c (\<lambda>k. k\<lparr>user_group := Some ?ug\<rparr>) ?st1"
    let ?st3 = "members_add ?ug c ?st2"
    let ?st4 = "ws_write c [Accept] ?st3"
    have w1: "coherent ?st1" by (rule coherent_group_add [OF w0]) simp
    have w2: "coherent ?st2"
      using assms(2) accepted(1)
      by (intro coherent_user_group_attr [OF w1]) (simp_all add: new_consumer_def)
    have w3: "coherent ?st3" by (rule coherent_group_add [OF w2]) simp
    have w4: "coherent ?st4" by (rule coherent_ws_write [OF w3]) simp
    have w5: "coherent (ws_write c outs ?st4)" for outs
      by (rule coherent_ws_write [OF w4]) simp
    have "coherent (deliver ?g ev (ws_write c outs ?st4))" for ev outs
      by (rule coherent_group_send [OF w5])
    with accepted(1,6) show ?thesis by simp
  qed
qed

lemma coherent_receive:
  assumes "coherent st" and "Accept \<in> set (sent (consumers st c))"
    and "receive py c text_data st = Inr st'"
  shows "coherent st'"
proof -
  from assms(2) have "consumers st c \<noteq> new_consumer" by (auto simp: new_consumer_def)
  with coherent_unconnected [OF assms(1), of c] obtain g
    where g: "group_name (consumers st c) = Some g" by auto
  from coherent_group_name [OF assms(1) g] obtain u
    where u: "user (consumers st c) = Some u" by auto
  show ?thesis
  proof (cases "json_loads py text_data")
    case None
    with assms(3) have "st' = ws_write c
        [Send (JObj [(''type'', JStr ''error''), (''message'', JStr ''invalid JSON'')])] st"
      by (simp add: receive_def send_error_def)
    with coherent_ws_write [OF assms(1), of c] g show ?thesis by simp
  next
    case (Some data)
    with assms(3) have r: "route py c data st = Inr st'" by (simp add: receive_def)
    then obtain d where "data = JObj d" by (cases data) (simp_all add: route_def)
    with r have "route py c (JObj d) st = Inr st'" by simp
    from route_effect [OF this u] coherent_group_send [OF assms(1)] assms(1)
    show ?thesis by auto
  qed
qed

lemma disconnect_cases:
  assumes "disconnect c code st = Inr st'"
  obtains (unset) "group_name (consumers st c) = None" "st' = st"
    | (room) g u where "group_name (consumers st c) = Some g" "user (consumers st c) = Some u"
        "user_group (consumers st c) = None"
        "st' = members_discard g c (deliver g (ParticipantLeft (user_id u) (username u)) st)"
    | (both) g u ug where "group_name (consumers st c) = Some g"
        "user (consumers st c) = Some u" "user_group (consumers st c) = Some ug"
        "st' = members_discard ug c
           (members_discard g c (deliver g (ParticipantLeft (user_id u) (username u)) st))"
proof (cases "group_name (consumers st c)")
  case None
  with assms have "st' = st" by (auto simp: disconnect_def)
  with None show ?thesis by (rule unset)
next
  case (Some g)
  note g = this
  show ?thesis
  proof (cases "user (consumers st c)")
    case None
    with assms g have False by (simp add: disconnect_def)
    then show ?thesis ..
  next
    case (Some u)
    note u = this
    show ?thesis
    proof (cases "valid_group_name g")
      case False
      with assms g u have False by (simp add: disconnect_def group_send_def)
      then show ?thesis ..
    next
      case True
      note v = this
      show ?thesis
      proof (cases "user_group (consumers st c)")
        case None
        with assms g u v
        have "st' = members_discard g c (deliver g (ParticipantLeft (user_id u) (username u)) st)"
          by (auto simp: disconnect_def group_send_def group_discard_def)
        with g u None show ?thesis by (rule room)
      next
        case (Some ug)
        note ug = this
        show ?thesis
        proof (cases "valid_group_name ug")
          case False
          with assms g u v ug have False
            by (simp add: disconnect_def group_send_def group_discard_def)
          then show ?thesis ..
        next
          case True
          with assms g u v ug
          have "st' = members_discard ug c
             (members_discard g c (deliver g (ParticipantLeft (user_id u) (username u)) st))"
            by (auto simp: disconnect_def group_send_def group_discard_def)
          with g u ug show ?thesis by (rule both)
        qed
      qed
    qed
  qed
qed

lemma coherent_disconnect:
  assumes "coherent st" and "disconnect c code st = Inr st'"
  shows "coherent st'"
  using assms(2)
proof (cases rule: disconnect_cases)
  case unset
  with assms(1) show ?thesis by simp
next
  case (room g u)
  then show ?thesis by (simp add: coherent_group_discard coherent_group_send assms(1))
next
  case (both g u ug)
  then show ?thesis by (simp add: coherent_group_discard coherent_group_send assms(1))
qed

lemma coherent_dispatch:
  assumes "coherent st"
  shows "coherent (dispatch c st)"
proof (cases "queue st c")
  case Nil
  with assms show ?thesis by (simp add: dispatch_def)
next
  case (Cons ev rest)
  let ?st1 = "st\<lparr>queue := (queue st)(c := rest)\<rparr>"
  from Cons coherent_unconnected [OF assms, of c]
  have g: "group_name (consumers st c) \<noteq> None" by auto
  have "coherent ?st1"
  proof (rule coherent_same_consumers [OF assms])
    fix c'
    assume "group_name (consumers st c') = None"
    with g have "c' \<noteq> c" by auto
    then show "queue ?st1 c' = queue st c'" by simp
  qed simp_all
  moreover from g have "group_name (consumers ?st1 c) \<noteq> None" by simp
  ultimately have "coherent (ws_write c (handler ev) ?st1)" by (rule coherent_ws_write)
  with Cons show ?thesis by (simp add: dispatch_def)
qed

lemma websocket_connect_Inr:
  assumes "websocket_connect tok c mid token st = Inr st'"
  shows "websocket_urlpatterns mid"
    and "connect c mid (Some (get_user tok (db st) token)) st = Inr st'"
  using assms by (simp_all add: websocket_connect_def split: if_splits)

lemma coherent_step:
  assumes "coherent st" and "enabled a st" and "step py tok a st = Inr st'"
  shows "coherent st'"
proof (cases a)
  case (Connect c mid token)
  with assms(2) have f: "consumers st c = new_consumer" by simp
  from Connect assms(3) have "websocket_connect tok c mid token st = Inr st'" by simp
  from coherent_connect [OF assms(1) f websocket_connect_Inr(2) [OF this]]
  show ?thesis .
next
  case (Receive c text_data)
  with assms show ?thesis by (auto intro: coherent_receive)
next
  case (Disconnect c code)
  with assms show ?thesis by (auto intro: coherent_disconnect)
next
  case (Dispatch c)
  with assms coherent_dispatch [OF assms(1), of c] show ?thesis by auto
next
  case (EndMeeting uid mid)
  with assms(3) have "st' = st\<lparr>db := db st'\<rparr>"
    by (auto simp: end_meeting_def split: prod.splits)
  with coherent_db [OF assms(1), of "db st'"] show ?thesis by simp
next
  case (DbUpdate d)
  with assms coherent_db [OF assms(1), of d] show ?thesis by auto
qed

lemma reaches_coherent:
  assumes "reaches py tok st st'" and "coherent st"
  shows "coherent st'"
  using assms by (induction rule: reaches.induct) (auto intro: coherent_step)

lemma reachable_coherent: "reachable py tok st \<Longrightarrow> coherent st"
  unfolding reachable_def using reaches_coherent coherent_init by blast

section \<open>The recorded names pass the channel layer\<close>

lemma named_init: "db_ok d \<Longrightarrow> named (init d)"
  by (simp add: named_def init_def new_consumer_def)

lemma named_same:
  assumes "named st"
    and "\<And>c. group_name (consumers st' c) = group_name (consumers st c)"
    and "\<And>c. user_group (consumers st' c) = user_group (consumers st c)"
    and "db st' = db st"
  shows "named st'"
  using assms unfolding named_def by simp

lemma named_deliver: "named st \<Longrightarrow> named (deliver g ev st)"
  by (rule named_same) simp_all

lemma named_members_add: "named st \<Longrightarrow> named (members_add g c st)"
  by (rule named_same) simp_all

lemma named_members_discard: "named st \<Longrightarrow> named (members_discard g c st)"
  by (rule named_same) simp_all

lemma named_ws_write: "named st \<Longrightarrow> named (ws_write c outs st)"
  by (rule named_same) simp_all

lemma named_db: "named st \<Longrightarrow> db_ok d \<Longrightarrow> named (st\<lparr>db := d\<rparr>)"
  unfolding named_def by simp

lemma named_group_name:
  "named st \<Longrightarrow> group_name (consumers st c) = Some g \<Longrightarrow> valid_group_name g"
  unfolding named_def by blast

lemma named_user_group:
  "named st \<Longrightarrow> user_group (consumers st c) = Some ug \<Longrightarrow> valid_group_name ug"
  unfolding named_def by blast

lemma named_connect_attrs:
  assumes "named st" and "valid_group_name (''meeting_'' @ mid)"
  shows "named (set_attrs c (\<lambda>k. k\<lparr>meeting_id := Some mid,
            group_name := Some (''meeting_'' @ mid), user := u\<rparr>) st)"
  using assms unfolding named_def by (auto simp: set_attrs_def)

lemma named_user_group_attr:
  assumes "named st" and "valid_group_name ug"
  shows "named (set_attrs c (\<lambda>k. k\<lparr>user_group := Some ug\<rparr>) st)"
  using assms unfolding named_def by (auto simp: set_attrs_def)

lemma named_connect:
  assumes "named st" and "websocket_urlpatterns mid"
    and "connect c mid (Some u) st = Inr st'"
  shows "named st'"
proof -
  let ?g = "''meeting_'' @ mid"
  have v: "valid_group_name ?g" by (rule valid_meeting_group [OF assms(2)])
  have n0: "named (set_attrs c (\<lambda>k. k\<lparr>meeting_id := Some mid, group_name := Some ?g,
                                  user := x\<rparr>) st)" for x
    by (rule named_connect_attrs [OF assms(1) v])
  from assms(3) show ?thesis
  proof (cases rule: connect_cases)
    case unauthenticated
    with named_ws_write [OF n0] show ?thesis by simp
  next
    case (forbidden uid n)
    with named_ws_write [OF n0] show ?thesis by simp
  next
    case (accepted uid n key)
    from accepted(6) show ?thesis
      by (simp only:)
         (intro named_deliver named_ws_write named_members_add named_user_group_attr n0
            accepted(5))
  qed
qed

lemma named_disconnect:
  assumes "named st" and "disconnect c code st = Inr st'"
  shows "named st'"
  using assms(2)
proof (cases rule: disconnect_cases)
  case unset
  with assms(1) show ?thesis by simp
next
  case (room g u)
  then show ?thesis by (simp add: named_members_discard named_deliver assms(1))
next
  case (both g u ug)
  then show ?thesis by (simp add: named_members_discard named_deliver assms(1))
qed

lemma named_receive:
  assumes "named st" and "receive py c text_data st = Inr st'"
  shows "named st'"
proof (cases "json_loads py text_data")
  case None
  with assms(2) have "st' = ws_write c
      [Send (JObj [(''type'', JStr ''error''), (''message'', JStr ''invalid JSON'')])] st"
    by (simp add: receive_def send_error_def)
  with named_ws_write [OF assms(1)] show ?thesis by simp
next
  case (Some data)
  with assms(2) have r: "route py c data st = Inr st'" by (simp add: receive_def)
  then obtain d where d: "data = JObj d" by (cases data) (simp_all add: route_def)
  show ?thesis
  proof (cases "user (consumers st c)")
    case None
    from r d have "st' = st"
      by (auto simp: route_def Let_def None group_send_def
               split: if_splits option.splits)
    with assms(1) show ?thesis by simp
  next
    case (Some u)
    from r d have "route py c (JObj d) st = Inr st'" by simp
    from route_effect [OF this Some] named_deliver [OF assms(1)] assms(1)
    show ?thesis by auto
  qed
qed

lemma named_dispatch:
  assumes "named st"
  shows "named (dispatch c st)"
proof (cases "queue st c")
  case Nil
  with assms show ?thesis by (simp add: dispatch_def)
next
  case (Cons ev rest)
  have "named (st\<lparr>queue := (queue st)(c := rest)\<rparr>)"
    by (rule named_same [OF assms]) simp_all
  from named_ws_write [OF this] Cons show ?thesis by (simp add: dispatch_def)
qed

lemma MeetingEndView_post_users: "users (snd (MeetingEndView_post uid mid d)) = users d"
  by (simp add: MeetingEndView_post_def split: option.splits)

lemma named_end_meeting:
  assumes "named st"
  shows "named (snd (end_meeting uid mid st))"
proof -
  from assms have "db_ok (db st)" by (simp add: named_def)
  then have "db_ok (snd (MeetingEndView_post uid mid (db st)))"
    by (simp add: db_ok_def MeetingEndView_post_users)
  from named_db [OF assms this] show ?thesis
    by (cases "MeetingEndView_post uid mid (db st)") (simp add: end_meeting_def)
qed

lemma named_step:
  assumes "named st" and "enabled a st" and "step py tok a st = Inr st'"
  shows "named st'"
proof (cases a)
  case (Connect c mid token)
  with assms(3) have "websocket_connect tok c mid token st = Inr st'" by simp
  from named_connect [OF assms(1) websocket_connect_Inr [OF this]] show ?thesis .
next
  case (Receive c text_data)
  with assms show ?thesis by (auto intro: named_receive)
next
  case (Disconnect c code)
  with assms show ?thesis by (auto intro: named_disconnect)
next
  case (Dispatch c)
  with assms named_dispatch [OF assms(1), of c] show ?thesis by auto
next
  case (EndMeeting uid mid)
  with assms named_end_meeting [OF assms(1), of uid mid] show ?thesis by auto
next
  case (DbUpdate d)
  with assms named_db [OF assms(1), of d] show ?thesis by auto
qed

lemma reaches_named:
  assumes "reaches py tok st st'" and "named st"
  shows "named st'"
  using assms by (induction rule: reaches.induct) (auto intro: named_step)

lemma reachable_named: "reachable py tok st \<Longrightarrow> named st"
  unfolding reachable_def using reaches_named named_init by blast

section \<open>The running example is reachable\<close>

lemma reachable_alice_in: "reachable demo_py demo_token alice_in"
proof -
  have "reaches demo_py demo_token (init demo_db) (init demo_db)" by (rule reaches.here)
  moreover have "enabled (Connect ''chan-alice'' room (Some ''alice-jwt'')) (init demo_db)"
    by (simp add: init_def)
  moreover have "step demo_py demo_token (Connect ''chan-alice'' room (Some ''alice-jwt''))
      (init demo_db) = Inr alice_in"
    by (simp add: alice_in_eq(1))
  ultimately have "reaches demo_py demo_token (init demo_db) alice_in" by (rule reaches.after)
  with demo_db_ok show ?thesis unfolding reachable_def by blast
qed

lemma reachable_both_in: "reachable demo_py demo_token both_in"
proof -
  from reachable_alice_in obtain d
    where d: "db_ok d" "reaches demo_py demo_token (init d) alice_in"
    unfolding reachable_def by blast
  have "enabled (Connect ''chan-bob'' room (Some ''bob-jwt'')) alice_in"
    by (simp add: alice_in_fields)
  moreover have "step demo_py demo_token (Connect ''chan-bob'' room (Some ''bob-jwt''))
      alice_in = Inr both_in"
    by (simp add: both_in_eq(1))
  ultimately have "reaches demo_py demo_token (init d) both_in"
    by (rule reaches.after [OF d(2)])
  with d(1) show ?thesis unfolding reachable_def by blast
qed

section \<open>Chat\<close>

lemma rev_drop_take: "rev (dropWhile P (rev t)) @ rev (takeWhile P (rev t)) = t"
proof -
  have "rev (takeWhile P (rev t) @ dropWhile P (rev t)) = t" by simp
  then show ?thesis by (simp only: rev_append)
qed

lemma strip_decomp:
  "\<exists>a b. s = a @ strip s @ b \<and> (\<forall>x \<in> set a \<union> set b. isspace x)"
proof -
  let ?t = "dropWhile isspace s"
  let ?a = "takeWhile isspace s"
  let ?b = "rev (takeWhile isspace (rev ?t))"
  have t: "strip s @ ?b = ?t" unfolding strip_def by (rule rev_drop_take)
  have "s = ?a @ ?t" by simp
  with t have "s = ?a @ strip s @ ?b" by simp
  moreover have "\<forall>x \<in> set ?a \<union> set ?b. isspace x"
    by (auto dest: set_takeWhileD)
  ultimately show ?thesis by blast
qed

lemma strip_ends:
  assumes "strip s \<noteq> []"
  shows "\<not> isspace (hd (strip s))" and "\<not> isspace (last (strip s))"
proof -
  let ?t = "dropWhile isspace s"
  let ?u = "dropWhile isspace (rev ?t)"
  from assms have u: "?u \<noteq> []" by (simp add: strip_def)
  then have "\<not> isspace (hd ?u)" by (rule hd_dropWhile)
  then show "\<not> isspace (last (strip s))" using u by (simp add: strip_def last_rev)
  have t: "strip s @ rev (takeWhile isspace (rev ?t)) = ?t"
    unfolding strip_def by (rule rev_drop_take)
  with assms have "?t \<noteq> []" by (metis append_is_Nil_conv)
  then have "\<not> isspace (hd ?t)" by (rule hd_dropWhile)
  moreover from t assms have "hd ?t = hd (strip s)" by (metis hd_append2)
  ultimately show "\<not> isspace (hd (strip s))" by simp
qed

lemma receive_chat:
  assumes "json_loads py text_data = Some (JObj d)"
    and "dict_get d ''type'' JNull = JStr ''chat''"
    and "group_name (consumers st c) = Some g"
    and "user (consumers st c) = Some u"
    and "valid_group_name g"
  shows "receive py c text_data st =
           Inr (if take 500 (strip (py_str py (dict_get d ''message'' (JStr '''')))) = [] then st
                else deliver g (ChatMessage (user_id u) (username u)
                       (take 500 (strip (py_str py (dict_get d ''message'' (JStr '''')))))) st)"
  using assms by (simp add: receive_def route_def Let_def group_send_def)

text \<open>C6: for a \<open>chat\<close> frame from an active session (a state the relay can reach), the
  message is what \<open>str\<close> of the \<open>message\<close> entry gives, with the whitespace at both
  ends removed (the removed ends are whitespace only, what is kept neither starts nor ends
  with whitespace), cut to its first 500 characters.  If that is empty (exactly when the
  trimmed message is), the relay is unchanged; otherwise every member of the session's room
  group, and no other channel, gets one \<open>chat\<close> event whose frame carries that message
  and the session's user id and name.\<close>

theorem chat_trim_and_broadcast:
  assumes "reachable py tok st"
    and "json_loads py text_data = Some (JObj d)"
    and "dict_get d ''type'' JNull = JStr ''chat''"
    and "group_name (consumers st c) = Some g"
    and "user (consumers st c) = Some (User uid uname)"
    and "raw = py_str py (dict_get d ''message'' (JStr ''''))"
    and "m = take 500 (strip raw)"
  shows "(\<exists>a b. raw = a @ strip raw @ b \<and> (\<forall>x \<in> set a \<union> set b. isspace x)) \<and>
         (strip raw \<noteq> [] \<longrightarrow> \<not> isspace (hd (strip raw)) \<and> \<not> isspace (last (strip raw))) \<and>
         length m \<le> 500 \<and> (m = [] \<longleftrightarrow> strip raw = []) \<and>
         receive py c text_data st =
           Inr (if m = [] then st
                else st\<lparr>queue := (\<lambda>c'. if c' \<in> groups st g
                                        then queue st c' @ [ChatMessage (JInt uid) uname m]
                                        else queue st c')\<rparr>) \<and>
         handler (ChatMessage (JInt uid) uname m) =
           [Send (JObj [(''type'', JStr ''chat''), (''user_id'', JInt uid),
                        (''username'', JStr uname), (''message'', JStr m)])]"
proof -
  have v: "valid_group_name g"
    by (rule named_group_name [OF reachable_named [OF assms(1)] assms(4)])
  have "receive py c text_data st =
           Inr (if m = [] then st
                else st\<lparr>queue := (\<lambda>c'. if c' \<in> groups st g
                                        then queue st c' @ [ChatMessage (JInt uid) uname m]
                                        else queue st c')\<rparr>)"
    unfolding assms(7) assms(6) receive_chat [OF assms(2-5) v]
    by (simp add: deliver_def)
  moreover have "m = [] \<longleftrightarrow> strip raw = []" unfolding assms(7) by simp
  moreover have "length m \<le> 500" unfolding assms(7) by simp
  moreover note strip_decomp [of raw] strip_ends [of raw]
  ultimately show ?thesis by (simp add: chat_message_def)
qed

lemma strip_hello: "strip ''  hello  '' = ''hello''"
  by (simp add: strip_def isspace_def)

theorem chat_trim_and_broadcast_witness:
  "reachable demo_py demo_token both_in \<and>
   json_loads demo_py chat_frame =
     Some (JObj [(''type'', JStr ''chat''), (''message'', JStr ''  hello  '')]) \<and>
   group_name (consumers both_in ''chan-bob'') = Some (''meeting_'' @ room) \<and>
   user (consumers both_in ''chan-bob'') = Some (User 4 ''bob'') \<and>
   take 500 (strip ''  hello  '') = ''hello'' \<and>
   (\<exists>st'. receive demo_py ''chan-bob'' chat_frame both_in = Inr st' \<and>
      queue st' ''chan-alice'' = queue both_in ''chan-alice'' @ [ChatMessage (JInt 4) ''bob'' ''hello''] \<and>
      queue st' ''chan-bob'' = queue both_in ''chan-bob'' @ [ChatMessage (JInt 4) ''bob'' ''hello'']) \<and>
   handler (ChatMessage (JInt 4) ''bob'' ''hello'') =
     [Send (JObj [(''type'', JStr ''chat''), (''user_id'', JInt 4), (''username'', JStr ''bob''),
                  (''message'', JStr ''hello'')])]"
proof -
  have a: "json_loads demo_py chat_frame =
     Some (JObj [(''type'', JStr ''chat''), (''message'', JStr ''  hello  '')])"
    by (simp add: demo_py_def chat_frame_def ping_frame_def)
  have b: "dict_get [(''type'', JStr ''chat''), (''message'', JStr ''  hello  '')] ''type'' JNull
             = JStr ''chat''"
    by (simp add: dict_get_def)
  have c: "group_name (consumers both_in ''chan-bob'') = Some (''meeting_'' @ room)"
    by (simp add: both_in_fields)
  have d: "user (consumers both_in ''chan-bob'') = Some (User 4 ''bob'')"
    by (simp add: both_in_fields)
  have e: "''  hello  '' = py_str demo_py
             (dict_get [(''type'', JStr ''chat''), (''message'', JStr ''  hello  '')] ''message'' (JStr ''''))"
    by (simp add: dict_get_def)
  have f: "''hello'' = take 500 (strip ''  hello  '')"
    by (simp add: strip_hello)
  from chat_trim_and_broadcast [OF reachable_both_in a b c d e f] reachable_both_in a c d
  show ?thesis
    by (simp add: strip_hello both_in_fields)
qed

section \<open>The sender named by an event\<close>

text \<open>C8: two frames of the same session whose dicts agree on \<open>type\<close>, \<open>message\<close>,
  \<open>raised\<close>, \<open>to\<close> and \<open>signal\<close> (so they may differ in any other key, such as
  \<open>user_id\<close> or \<open>username\<close>) have the same effect, error or not; and every event a
  frame puts on a queue names the session's own user id and name as its sender.\<close>

theorem sender_identity_from_session:
  assumes "\<forall>k \<in> {''type'', ''message'', ''raised'', ''to'', ''signal''}. map_of d1 k = map_of d2 k"
    and "json_loads py text1 = Some (JObj d1)"
    and "json_loads py text2 = Some (JObj d2)"
    and "user (consumers st c) = Some u"
  shows "receive py c text1 st = receive py c text2 st \<and>
         (\<forall>st'. receive py c text1 st = Inr st' \<longrightarrow>
            groups st' = groups st \<and> consumers st' = consumers st \<and>
            (\<forall>c'. queue st' c' = queue st c' \<or>
                  (\<exists>ev. queue st' c' = queue st c' @ [ev] \<and>
                        sender ev = Some (user_id u, username u))))"
proof -
  from assms(2,3) have "receive py c text1 st = receive py c text2 st"
    by (simp add: receive_def route_depends [OF assms(1)])
  moreover have "groups st' = groups st \<and> consumers st' = consumers st \<and>
            (\<forall>c'. queue st' c' = queue st c' \<or>
                  (\<exists>ev. queue st' c' = queue st c' @ [ev] \<and>
                        sender ev = Some (user_id u, username u)))"
    if "receive py c text1 st = Inr st'" for st'
  proof -
    from that assms(2) have "route py c (JObj d1) st = Inr st'" by (simp add: receive_def)
    from route_effect [OF this assms(4)] show ?thesis by auto
  qed
  ultimately show ?thesis by blast
qed

theorem sender_identity_from_session_witness:
  "json_loads demo_py chat_frame =
     Some (JObj [(''type'', JStr ''chat''), (''message'', JStr ''  hello  '')]) \<and>
   json_loads demo_py spoofed_chat_frame =
     Some (JObj [(''user_id'', JInt 3), (''username'', JStr ''alice''),
                 (''type'', JStr ''chat''), (''message'', JStr ''  hello  '')]) \<and>
   user (consumers both_in ''chan-bob'') = Some (User 4 ''bob'') \<and>
   receive demo_py ''chan-bob'' chat_frame both_in =
     receive demo_py ''chan-bob'' spoofed_chat_frame both_in \<and>
   receive demo_py ''chan-bob'' spoofed_chat_frame both_in =
     Inr (deliver (''meeting_'' @ room) (ChatMessage (JInt 4) ''bob'' ''hello'') both_in)"
proof -
  have a: "\<forall>k \<in> {''type'', ''message'', ''raised'', ''to'', ''signal''}.
      map_of [(''type'', JStr ''chat''), (''message'', JStr ''  hello  '')] k =
      map_of [(''user_id'', JInt 3), (''username'', JStr ''alice''),
              (''type'', JStr ''chat''), (''message'', JStr ''  hello  '')] k"
    by simp
  have b: "json_loads demo_py chat_frame =
     Some (JObj [(''type'', JStr ''chat''), (''message'', JStr ''  hello  '')])"
    by (simp add: demo_py_def chat_frame_def ping_frame_def)
  have c: "json_loads demo_py spoofed_chat_frame =
     Some (JObj [(''user_id'', JInt 3), (''username'', JStr ''alice''),
              (''type'', JStr ''chat''), (''message'', JStr ''  hello  '')])"
    by (simp add: demo_py_def chat_frame_def ping_frame_def spoofed_chat_frame_def)
  have d: "user (consumers both_in ''chan-bob'') = Some (User 4 ''bob'')"
    by (simp add: both_in_fields)
  have g: "group_name (consumers both_in ''chan-bob'') = Some (''meeting_'' @ room)"
    by (simp add: both_in_fields)
  have h: "dict_get [(''type'', JStr ''chat''), (''message'', JStr ''  hello  '')] ''type'' JNull
             = JStr ''chat''"
    by (simp add: dict_get_def)
  have e: "receive demo_py ''chan-bob'' chat_frame both_in =
     Inr (deliver (''meeting_'' @ room) (ChatMessage (JInt 4) ''bob'' ''hello'') both_in)"
    unfolding receive_chat [OF b h g d demo_room(3)]
    by (simp add: dict_get_def strip_hello)
  from sender_identity_from_session [OF a b c d, THEN conjunct1]
  have f: "receive demo_py ''chan-bob'' chat_frame both_in =
     receive demo_py ''chan-bob'' spoofed_chat_frame both_in" .
  with e have "receive demo_py ''chan-bob'' spoofed_chat_frame both_in =
     Inr (deliver (''meeting_'' @ room) (ChatMessage (JInt 4) ''bob'' ''hello'') both_in)"
    by simp
  with b c d f show ?thesis by blast
qed

section \<open>Ending a meeting, joining a room\<close>

text \<open>C1, on the code: \<open>MeetingEndView.post\<close> only writes to the database.  Groups,
  queues and consumers are those of before, for every host, meeting and state: no
  \<open>meeting_ended\<close> event is sent and nobody is closed.  When Alice ends the meeting that
  she and Bob are connected to, the answer is 200 \<open>{"status":"ended"}\<close>, Bob's queue
  still holds only his own join, and Bob is still in the room group.\<close>

theorem end_meeting_sends_nothing:
  "groups (snd (end_meeting uid mid st)) = groups st \<and>
   queue (snd (end_meeting uid mid st)) = queue st \<and>
   consumers (snd (end_meeting uid mid st)) = consumers st \<and>
   websocket_connect demo_token ''chan-alice'' room (Some ''alice-jwt'') (init demo_db) =
     Inr alice_in \<and>
   websocket_connect demo_token ''chan-bob'' room (Some ''bob-jwt'') alice_in = Inr both_in \<and>
   uuid_of room = Some room_key \<and>
   fst (end_meeting 3 room_key both_in) = Response (JObj [(''status'', JStr ''ended'')]) 200 \<and>
   queue (snd (end_meeting 3 room_key both_in)) ''chan-bob'' =
     [ParticipantJoined (JInt 4) ''bob''] \<and>
   ''chan-bob'' \<in> groups (snd (end_meeting 3 room_key both_in)) (''meeting_'' @ room)"
proof -
  have "fst (end_meeting 3 room_key both_in) = Response (JObj [(''status'', JStr ''ended'')]) 200"
    by (simp add: end_meeting_def MeetingEndView_post_def both_in_fields demo_db_def
        split: prod.splits)
  moreover have "groups (snd (end_meeting uid mid st)) = groups st \<and>
      queue (snd (end_meeting uid mid st)) = queue st \<and>
      consumers (snd (end_meeting uid mid st)) = consumers st" for uid mid st
    by (simp add: end_meeting_def split: prod.splits)
  ultimately show ?thesis by (simp add: both_in_fields alice_in_eq(1) both_in_eq(1) demo_room(2))
qed

text \<open>C3, on the code: Bob's \<open>connect\<close> puts his own \<open>participant_joined\<close> event
  on his own queue, and his consumer then writes that frame to his socket, after
  \<open>room_state\<close>.\<close>

theorem joiner_receives_own_join:
  "websocket_connect demo_token ''chan-bob'' room (Some ''bob-jwt'') alice_in = Inr both_in \<and>
   queue both_in ''chan-bob'' = [ParticipantJoined (JInt 4) ''bob''] \<and>
   sent (consumers (dispatch ''chan-bob'' both_in) ''chan-bob'') =
     [Accept,
      Send (JObj [(''type'', JStr ''room_state''),
        (''participants'', JArr [JObj [(''user_id'', JInt 3), (''username'', JStr ''alice'')]])]),
      Send (JObj [(''type'', JStr ''participant_joined''), (''user_id'', JInt 4),
                  (''username'', JStr ''bob'')])]"
  by (simp add: dispatch_def both_in_fields participant_joined_def both_in_eq(1))

section \<open>Teardown\<close>

text \<open>C7: in every reachable state, \<open>disconnect\<close> of any channel returns normally,
  and afterwards that channel is a member of no group at all (its room group and its
  personal group included); the memberships of the other channels are untouched.\<close>

theorem teardown_removes_memberships:
  assumes "reachable py tok st"
  shows "\<exists>st'. disconnect c code st = Inr st' \<and> (\<forall>g. c \<notin> groups st' g) \<and>
           (\<forall>c' g. c' \<noteq> c \<longrightarrow> (c' \<in> groups st' g \<longleftrightarrow> c' \<in> groups st g))"
proof -
  have w: "coherent st" by (rule reachable_coherent [OF assms])
  have n: "named st" by (rule reachable_named [OF assms])
  show ?thesis
  proof (cases "group_name (consumers st c)")
    case None
    then have "disconnect c code st = Inr st" by (simp add: disconnect_def)
    moreover from coherent_member [OF w, of c] None have "\<forall>g. c \<notin> groups st g" by auto
    ultimately show ?thesis by simp
  next
    case (Some g)
    from coherent_group_name [OF w Some] obtain u
      where u: "user (consumers st c) = Some u" by auto
    have v: "valid_group_name g" by (rule named_group_name [OF n Some])
    let ?st2 = "members_discard g c (deliver g (ParticipantLeft (user_id u) (username u)) st)"
    show ?thesis
    proof (cases "user_group (consumers st c)")
      case None
      with Some u v have d: "disconnect c code st = Inr ?st2"
        by (simp add: disconnect_def group_send_def group_discard_def)
      have "c \<notin> groups ?st2 g'" for g'
        using coherent_groups [OF w, of c g'] Some None by auto
      with d show ?thesis by simp
    next
      case ug: (Some ug)
      have vu: "valid_group_name ug" by (rule named_user_group [OF n ug])
      with Some u v ug have d: "disconnect c code st = Inr (members_discard ug c ?st2)"
        by (simp add: disconnect_def group_send_def group_discard_def)
      have "c \<notin> groups (members_discard ug c ?st2) g'" for g'
        using coherent_groups [OF w, of c g'] Some ug by auto
      with d show ?thesis by simp
    qed
  qed
qed

theorem teardown_removes_memberships_witness:
  "reachable demo_py demo_token both_in \<and>
   ''chan-bob'' \<in> groups both_in (''meeting_'' @ room) \<and> ''chan-bob'' \<in> groups both_in ''user_4'' \<and>
   (\<exists>st'. disconnect ''chan-bob'' 1001 both_in = Inr st' \<and> (\<forall>g. ''chan-bob'' \<notin> groups st' g))"
  using teardown_removes_memberships [OF reachable_both_in, of "''chan-bob''" 1001]
    reachable_both_in
  by (auto simp: both_in_fields demo_names)

section \<open>Joining: the snapshot comes first\<close>

lemma sent_connect:
  assumes "connect c mid (Some u) st = Inr st'"
  shows "\<exists>more. sent (consumers st' c') = sent (consumers st c') @ more"
  using assms by (cases rule: connect_cases) simp_all

lemma sent_receive:
  assumes "receive py c text_data st = Inr st'"
  shows "\<exists>more. sent (consumers st' c') = sent (consumers st c') @ more"
proof (cases "json_loads py text_data")
  case None
  with assms show ?thesis by (auto simp: receive_def send_error_def)
next
  case (Some data)
  with assms have r: "route py c data st = Inr st'" by (simp add: receive_def)
  then obtain d where "data = JObj d" by (cases data) (simp_all add: route_def)
  with r have "consumers st' = consumers st"
    by (auto simp: route_def Let_def group_send_def split: if_splits option.splits)
  then show ?thesis by simp
qed

lemma sent_disconnect:
  assumes "disconnect c code st = Inr st'"
  shows "consumers st' = consumers st"
  using assms by (cases rule: disconnect_cases) simp_all

lemma sent_dispatch:
  "\<exists>more. sent (consumers (dispatch c st) c') = sent (consumers st c') @ more"
  by (cases "queue st c") (simp_all add: dispatch_def)

lemma sent_step:
  assumes "step py tok a st = Inr st'"
  shows "\<exists>more. sent (consumers st' c') = sent (consumers st c') @ more"
proof (cases a)
  case (Connect c mid token)
  with assms have "websocket_connect tok c mid token st = Inr st'" by simp
  from sent_connect [OF websocket_connect_Inr(2) [OF this]] show ?thesis .
next
  case (Receive c text_data)
  with assms show ?thesis by (auto intro: sent_receive)
next
  case (Disconnect c code)
  with assms sent_disconnect [of c code st st'] show ?thesis by simp
next
  case (Dispatch c)
  with assms sent_dispatch [of c st c'] show ?thesis by auto
next
  case (EndMeeting uid mid)
  with assms show ?thesis by (auto simp: end_meeting_def split: prod.splits)
next
  case (DbUpdate d)
  with assms show ?thesis by auto
qed

lemma sent_reaches:
  assumes "reaches py tok st st'"
  shows "\<exists>more. sent (consumers st' c) = sent (consumers st c) @ more"
  using assms
proof (induction rule: reaches.induct)
  case (here st)
  show ?case by simp
next
  case (after st st' a st'')
  from after.IH obtain m1 where "sent (consumers st' c) = sent (consumers st c) @ m1" ..
  moreover from sent_step [OF after.hyps(3), of c]
  obtain m2 where "sent (consumers st'' c) = sent (consumers st' c) @ m2" ..
  ultimately have "sent (consumers st'' c) = sent (consumers st c) @ (m1 @ m2)" by simp
  then show ?case ..
qed

lemma get_user_known:
  assumes "get_user tok d token = User uid n"
  shows "\<exists>u \<in> set (users d). u_id u = uid"
proof -
  from assms obtain x u where f: "find (\<lambda>u. u_id u = x) (users d) = Some u"
    and u: "u_id u = uid"
    by (auto simp: get_user_def split: option.splits if_splits)
  from f obtain i where "i < length (users d)" and "u = users d ! i"
    unfolding find_Some_iff by blast
  then have "u \<in> set (users d)" by simp
  with u show ?thesis by blast
qed

lemma get_user_group:
  assumes "db_ok d" and "get_user tok d token = User uid n"
  shows "valid_group_name (''user_'' @ show_int uid)"
proof -
  from get_user_known [OF assms(2)] obtain u where "u \<in> set (users d)" and "u_id u = uid"
    by blast
  with assms(1) have "0 < uid" and "uid < 2 ^ 63" by (auto simp: db_ok_def list_all_iff)
  then show ?thesis by (rule valid_user_group)
qed

text \<open>C5: when a handshake succeeds in a reachable state, on a consumer just created (the
  path is one the route admits, the token names a user, and the access check passes), the
  first things the new session is sent are the acceptance and then one \<open>room_state\<close>
  frame; it lists, in table order, exactly the participant rows of this meeting that are
  active and belong to another user.  The session's own \<open>participant_joined\<close> is only
  queued at that point, and whatever the relay does later, everything else this session is
  sent comes after the \<open>room_state\<close> frame.\<close>

theorem room_state_first:
  assumes "reachable py tok st" and "consumers st c = new_consumer"
    and "websocket_urlpatterns mid" and "uuid_of mid = Some key"
    and "get_user tok (db st) token = User uid n"
    and "check_access (db st) mid uid = Inr True"
    and "room_state = Send (JObj [(''type'', JStr ''room_state''), (''participants'', JArr
           (map (\<lambda>p. JObj [(''user_id'', JInt (p_user_id p)), (''username'', JStr (p_username p))])
              (filter (\<lambda>p. p_meeting_id p = key \<and> p_is_active p \<and> p_user_id p \<noteq> uid)
                 (participants (db st)))))])"
  shows "\<exists>st'. websocket_connect tok c mid token st = Inr st' \<and>
         sent (consumers st' c) = [Accept, room_state] \<and>
         queue st' c = [ParticipantJoined (JInt uid) n] \<and>
         (\<forall>st''. reaches py tok st' st'' \<longrightarrow>
            (\<exists>later. sent (consumers st'' c) = [Accept, room_state] @ later))"
proof -
  have w: "coherent st" by (rule reachable_coherent [OF assms(1)])
  have "named st" by (rule reachable_named [OF assms(1)])
  then have "db_ok (db st)" by (simp add: named_def)
  then have vu: "valid_group_name (''user_'' @ show_int uid)"
    using assms(5) by (rule get_user_group)
  have vg: "valid_group_name (''meeting_'' @ mid)" by (rule valid_meeting_group [OF assms(3)])
  note c = connect_accepted [OF assms(6) assms(4) vg vu, of c n]
  define st' where "st' = (case websocket_connect tok c mid token st of Inr x \<Rightarrow> x | Inl e \<Rightarrow> st)"
  have r: "websocket_connect tok c mid token st = Inr st'"
    unfolding st'_def websocket_connect_def assms(5) c using assms(3) by simp
  have f: "filter (\<lambda>p. p_user_id p \<noteq> uid)
             (filter (\<lambda>p. p_meeting_id p = key \<and> p_is_active p) ps) =
           filter (\<lambda>p. p_meeting_id p = key \<and> p_is_active p \<and> p_user_id p \<noteq> uid) ps" for ps
    by (induction ps) auto
  have s: "sent (consumers st' c) = [Accept, room_state]"
    unfolding st'_def websocket_connect_def assms(5) assms(7) c
    using assms(2,3) by (simp add: new_consumer_def f)
  have q: "queue st' c = [ParticipantJoined (JInt uid) n]"
    unfolding st'_def websocket_connect_def assms(5) c
    using coherent_fresh(2) [OF w assms(2)] assms(3) by simp
  have "\<exists>later. sent (consumers st'' c) = [Accept, room_state] @ later"
    if "reaches py tok st' st''" for st''
    using sent_reaches [OF that, of c] s by simp
  with r s q show ?thesis by blast
qed

theorem room_state_first_witness:
  "reachable demo_py demo_token alice_in \<and>
   consumers alice_in ''chan-bob'' = new_consumer \<and>
   websocket_urlpatterns room \<and> uuid_of room = Some room_key \<and>
   get_user demo_token (db alice_in) (Some ''bob-jwt'') = User 4 ''bob'' \<and>
   check_access (db alice_in) room 4 = Inr True \<and>
   websocket_connect demo_token ''chan-bob'' room (Some ''bob-jwt'') alice_in = Inr both_in \<and>
   sent (consumers both_in ''chan-bob'') =
     [Accept, Send (JObj [(''type'', JStr ''room_state''), (''participants'',
        JArr [JObj [(''user_id'', JInt 3), (''username'', JStr ''alice'')]])])] \<and>
   queue both_in ''chan-bob'' = [ParticipantJoined (JInt 4) ''bob''] \<and>
   (\<exists>later. sent (consumers (dispatch ''chan-bob'' both_in) ''chan-bob'') =
     [Accept, Send (JObj [(''type'', JStr ''room_state''), (''participants'',
        JArr [JObj [(''user_id'', JInt 3), (''username'', JStr ''alice'')]])])] @ later)"
proof -
  have a: "consumers alice_in ''chan-bob'' = new_consumer" by (simp add: alice_in_fields)
  have b: "get_user demo_token (db alice_in) (Some ''bob-jwt'') = User 4 ''bob''"
    by (simp add: alice_in_fields demo_users)
  have c: "check_access (db alice_in) room 4 = Inr True"
    by (simp add: alice_in_fields demo_access)
  have d: "reaches demo_py demo_token both_in (dispatch ''chan-bob'' both_in)"
    by (rule reaches.after [OF reaches.here, of "Dispatch ''chan-bob''"]) simp_all
  from room_state_first [OF reachable_alice_in a demo_room(1) demo_room(2) b c refl]
  obtain st' where e: "websocket_connect demo_token ''chan-bob'' room (Some ''bob-jwt'') alice_in
        = Inr st'"
    and s: "sent (consumers st' ''chan-bob'') =
      [Accept, Send (JObj [(''type'', JStr ''room_state''), (''participants'', JArr
           (map (\<lambda>p. JObj [(''user_id'', JInt (p_user_id p)), (''username'', JStr (p_username p))])
              (filter (\<lambda>p. p_meeting_id p = room_key \<and> p_is_active p \<and> p_user_id p \<noteq> 4)
                 (participants (db alice_in)))))])]"
    and q: "queue st' ''chan-bob'' = [ParticipantJoined (JInt 4) ''bob'']"
    and l: "\<forall>st''. reaches demo_py demo_token st' st'' \<longrightarrow>
            (\<exists>later. sent (consumers st'' ''chan-bob'') =
      [Accept, Send (JObj [(''type'', JStr ''room_state''), (''participants'', JArr
           (map (\<lambda>p. JObj [(''user_id'', JInt (p_user_id p)), (''username'', JStr (p_username p))])
              (filter (\<lambda>p. p_meeting_id p = room_key \<and> p_is_active p \<and> p_user_id p \<noteq> 4)
                 (participants (db alice_in)))))])] @ later)"
    by blast
  from e have st': "st' = both_in" by (simp add: both_in_eq(1))
  from s q l d have "sent (consumers both_in ''chan-bob'') =
     [Accept, Send (JObj [(''type'', JStr ''room_state''), (''participants'',
        JArr [JObj [(''user_id'', JInt 3), (''username'', JStr ''alice'')]])])] \<and>
   queue both_in ''chan-bob'' = [ParticipantJoined (JInt 4) ''bob''] \<and>
   (\<exists>later. sent (consumers (dispatch ''chan-bob'' both_in) ''chan-bob'') =
     [Accept, Send (JObj [(''type'', JStr ''room_state''), (''participants'',
        JArr [JObj [(''user_id'', JInt 3), (''username'', JStr ''alice'')]])])] @ later)"
    unfolding st' by (simp add: alice_in_fields demo_db_def)
  with reachable_alice_in a b c demo_room(1,2) both_in_eq(1) show ?thesis by blast
qed

section \<open>Signalling\<close>

lemma personal_group_members:
  assumes "coherent st" and "c' \<in> groups st (''user_'' @ x)"
  shows "user_group (consumers st c') = Some (''user_'' @ x)"
proof -
  from coherent_groups [OF assms] show ?thesis
  proof
    assume g: "group_name (consumers st c') = Some (''user_'' @ x)"
    from coherent_group_name [OF assms(1) g] obtain mid where "''user_'' @ x = ''meeting_'' @ mid"
      by auto
    then show ?thesis by simp
  qed
qed

text \<open>C4, amended: for a \<open>webrtc_signal\<close> frame of an active session in a reachable
  state: if \<open>to\<close> is missing or falsy nothing happens; if the name \<open>user_<to>\<close> is one
  the channel layer refuses, \<open>receive\<close> raises \<open>TypeError\<close> and nothing is delivered;
  otherwise exactly the members of the group \<open>user_<to>\<close> get one event, and nobody else
  does (the sender too gets it exactly when its own channel is in that group).  The name is
  let through whenever \<open>to\<close> is an integer that can be a user id.  The members of that
  group are sessions whose personal group it is; when \<open>to\<close> is the integer \<open>x\<close> they
  are sessions of identity \<open>x\<close>.  The frame the event's handler writes names the sender's
  id and name and carries the \<open>signal\<close> entry as it came.\<close>

theorem signal_is_unicast:
  assumes "reachable py tok st"
    and "json_loads py text_data = Some (JObj d)"
    and "dict_get d ''type'' JNull = JStr ''webrtc_signal''"
    and "user (consumers st c) = Some (User uid n)"
    and "target = ''user_'' @ py_str py (dict_get d ''to'' JNull)"
    and "ev = WebrtcRelay (JInt uid) n (dict_get d ''signal'' JNull)"
  shows "(\<not> truthy (dict_get d ''to'' JNull) \<longrightarrow> receive py c text_data st = Inr st) \<and>
         (truthy (dict_get d ''to'' JNull) \<and> \<not> valid_group_name target \<longrightarrow>
            receive py c text_data st = Inl TypeError) \<and>
         (truthy (dict_get d ''to'' JNull) \<and> valid_group_name target \<longrightarrow>
            receive py c text_data st =
              Inr (st\<lparr>queue := (\<lambda>c'. if c' \<in> groups st target then queue st c' @ [ev]
                                      else queue st c')\<rparr>)) \<and>
         (\<forall>x. dict_get d ''to'' JNull = JInt x \<and> 0 < x \<and> x < 2 ^ 63 \<longrightarrow>
            valid_group_name target) \<and>
         (\<forall>c' \<in> groups st target. user_group (consumers st c') = Some target) \<and>
         (\<forall>x. dict_get d ''to'' JNull = JInt x \<longrightarrow>
            (\<forall>c' \<in> groups st target. \<exists>n'. user (consumers st c') = Some (User x n'))) \<and>
         handler ev =
           [Send (JObj [(''type'', JStr ''webrtc_signal''), (''from'', JInt uid),
                        (''from_username'', JStr n), (''signal'', dict_get d ''signal'' JNull)])]"
proof -
  have w: "coherent st" by (rule reachable_coherent [OF assms(1)])
  have r: "receive py c text_data st =
      (if \<not> truthy (dict_get d ''to'' JNull) then Inr st else group_send target ev st)"
    using assms(2,4) by (simp add: receive_def route_webrtc_signal [OF assms(3)] assms(5,6))
  have r1: "receive py c text_data st = Inr st" if "\<not> truthy (dict_get d ''to'' JNull)"
    using r that by simp
  have r2: "receive py c text_data st = Inl TypeError"
    if "truthy (dict_get d ''to'' JNull)" and "\<not> valid_group_name target"
    using r that by (simp add: group_send_def)
  have r3: "receive py c text_data st =
              Inr (st\<lparr>queue := (\<lambda>c'. if c' \<in> groups st target then queue st c' @ [ev]
                                      else queue st c')\<rparr>)"
    if "truthy (dict_get d ''to'' JNull)" and "valid_group_name target"
    using r that by (simp add: group_send_def deliver_def)
  have v: "valid_group_name target"
    if "dict_get d ''to'' JNull = JInt x" and "0 < x" and "x < 2 ^ 63" for x
    unfolding assms(5) that(1) using valid_user_group [OF that(2,3)] by simp
  have m: "user_group (consumers st c') = Some target" if "c' \<in> groups st target" for c'
    using personal_group_members [OF w] that unfolding assms(5) by blast
  have i: "\<exists>n'. user (consumers st c') = Some (User x n')"
    if "dict_get d ''to'' JNull = JInt x" and "c' \<in> groups st target" for x c'
  proof -
    from m [OF that(2)] have "user_group (consumers st c') = Some (''user_'' @ show_int x)"
      by (simp add: assms(5) that(1))
    from coherent_user_group [OF w this] obtain uid' n'
      where u: "user (consumers st c') = Some (User uid' n')"
        and "''user_'' @ show_int x = ''user_'' @ show_int uid'" by auto
    then have "show_int x = show_int uid'" by simp
    then have "x = uid'" by (rule show_int_inj)
    with u show ?thesis by simp
  qed
  have h: "handler ev =
           [Send (JObj [(''type'', JStr ''webrtc_signal''), (''from'', JInt uid),
                        (''from_username'', JStr n), (''signal'', dict_get d ''signal'' JNull)])]"
    by (simp add: assms(6) webrtc_relay_def)
  from r1 r2 r3 v m i h show ?thesis by blast
qed

text \<open>C4 as stated fails: Bob (identity 4) sends a signal addressed \<open>to: 4\<close>; the
  event is put on the queue of Bob's own channel.\<close>

theorem sender_can_signal_itself:
  "json_loads demo_py signal_to_bob =
     Some (JObj [(''type'', JStr ''webrtc_signal''), (''to'', JInt 4), (''signal'', offer)]) \<and>
   user (consumers both_in ''chan-bob'') = Some (User 4 ''bob'') \<and>
   receive demo_py ''chan-bob'' signal_to_bob both_in =
     Inr (deliver ''user_4'' (WebrtcRelay (JInt 4) ''bob'' offer) both_in) \<and>
   queue (deliver ''user_4'' (WebrtcRelay (JInt 4) ''bob'' offer) both_in) ''chan-bob'' =
     [ParticipantJoined (JInt 4) ''bob'', WebrtcRelay (JInt 4) ''bob'' offer]"
proof -
  have a: "json_loads demo_py signal_to_bob =
     Some (JObj [(''type'', JStr ''webrtc_signal''), (''to'', JInt 4), (''signal'', offer)])"
    by (simp add: demo_py_def ping_frame_def chat_frame_def spoofed_chat_frame_def
        signal_to_alice_def signal_to_bob_def)
  have u: "user (consumers both_in ''chan-bob'') = Some (User 4 ''bob'')"
    by (simp add: both_in_fields)
  have "receive demo_py ''chan-bob'' signal_to_bob both_in =
     Inr (deliver ''user_4'' (WebrtcRelay (JInt 4) ''bob'' offer) both_in)"
    using demo_names(6)
    by (simp add: receive_def a route_def dict_get_def u demo_names(4) group_send_def)
  moreover have "queue (deliver ''user_4'' (WebrtcRelay (JInt 4) ''bob'' offer) both_in)
       ''chan-bob'' = [ParticipantJoined (JInt 4) ''bob'', WebrtcRelay (JInt 4) ''bob'' offer]"
    by (simp add: both_in_fields demo_names)
  ultimately show ?thesis using a u by blast
qed

lemma demo_frames:
  "json_loads demo_py signal_to_alice =
     Some (JObj [(''type'', JStr ''webrtc_signal''), (''to'', JInt 3), (''signal'', offer)])"
  "json_loads demo_py signal_without_target =
     Some (JObj [(''type'', JStr ''webrtc_signal''), (''signal'', offer)])"
  "json_loads demo_py signal_to_two_words =
     Some (JObj [(''type'', JStr ''webrtc_signal''), (''to'', JStr ''a b''), (''signal'', offer)])"
  by (simp_all add: demo_py_def ping_frame_def chat_frame_def spoofed_chat_frame_def
      signal_to_alice_def signal_to_bob_def signal_without_target_def signal_to_two_words_def)

theorem signal_is_unicast_witness:
  "reachable demo_py demo_token both_in \<and>
   user (consumers both_in ''chan-bob'') = Some (User 4 ''bob'') \<and>
   json_loads demo_py signal_to_alice =
     Some (JObj [(''type'', JStr ''webrtc_signal''), (''to'', JInt 3), (''signal'', offer)]) \<and>
   valid_group_name ''user_3'' \<and>
   (\<exists>st'. receive demo_py ''chan-bob'' signal_to_alice both_in = Inr st' \<and>
      queue st' ''chan-alice'' = queue both_in ''chan-alice'' @ [WebrtcRelay (JInt 4) ''bob'' offer] \<and>
      queue st' ''chan-bob'' = queue both_in ''chan-bob'') \<and>
   groups both_in ''user_3'' = {''chan-alice''} \<and>
   user (consumers both_in ''chan-alice'') = Some (User 3 ''alice'') \<and>
   handler (WebrtcRelay (JInt 4) ''bob'' offer) =
     [Send (JObj [(''type'', JStr ''webrtc_signal''), (''from'', JInt 4),
                  (''from_username'', JStr ''bob''),
                  (''signal'', JObj [(''type'', JStr ''offer''), (''sdp'', JStr ''X'')])])] \<and>
   json_loads demo_py signal_without_target =
     Some (JObj [(''type'', JStr ''webrtc_signal''), (''signal'', offer)]) \<and>
   receive demo_py ''chan-bob'' signal_without_target both_in = Inr both_in \<and>
   json_loads demo_py signal_to_two_words =
     Some (JObj [(''type'', JStr ''webrtc_signal''), (''to'', JStr ''a b''), (''signal'', offer)]) \<and>
   \<not> valid_group_name ''user_a b'' \<and>
   receive demo_py ''chan-bob'' signal_to_two_words both_in = Inl TypeError"
proof -
  let ?d1 = "[(''type'', JStr ''webrtc_signal''), (''to'', JInt 3), (''signal'', offer)]"
  let ?d2 = "[(''type'', JStr ''webrtc_signal''), (''signal'', offer)]"
  let ?d3 = "[(''type'', JStr ''webrtc_signal''), (''to'', JStr ''a b''), (''signal'', offer)]"
  have t1: "dict_get ?d1 ''type'' JNull = JStr ''webrtc_signal''" by (simp add: dict_get_def)
  have t2: "dict_get ?d2 ''type'' JNull = JStr ''webrtc_signal''" by (simp add: dict_get_def)
  have t3: "dict_get ?d3 ''type'' JNull = JStr ''webrtc_signal''" by (simp add: dict_get_def)
  have u: "user (consumers both_in ''chan-bob'') = Some (User 4 ''bob'')"
    by (simp add: both_in_fields)
  have g: "groups both_in ''user_3'' = {''chan-alice''}"
    by (simp add: both_in_fields demo_names)
  have a: "user (consumers both_in ''chan-alice'') = Some (User 3 ''alice'')"
    by (simp add: both_in_fields alice_in_fields)
  have n: "\<not> valid_group_name ''user_a b''"
    by (simp add: valid_group_name_def group_char_def)
  from signal_is_unicast [OF reachable_both_in demo_frames(1) t1 u refl refl] demo_names(5)
  have "(\<exists>st'. receive demo_py ''chan-bob'' signal_to_alice both_in = Inr st' \<and>
      queue st' ''chan-alice'' = queue both_in ''chan-alice'' @ [WebrtcRelay (JInt 4) ''bob'' offer] \<and>
      queue st' ''chan-bob'' = queue both_in ''chan-bob'') \<and>
     handler (WebrtcRelay (JInt 4) ''bob'' offer) =
     [Send (JObj [(''type'', JStr ''webrtc_signal''), (''from'', JInt 4),
                  (''from_username'', JStr ''bob''),
                  (''signal'', JObj [(''type'', JStr ''offer''), (''sdp'', JStr ''X'')])])]"
    by (simp add: dict_get_def demo_names g offer_def)
  moreover from signal_is_unicast [OF reachable_both_in demo_frames(2) t2 u refl refl]
  have "receive demo_py ''chan-bob'' signal_without_target both_in = Inr both_in"
    by (simp add: dict_get_def)
  moreover from signal_is_unicast [OF reachable_both_in demo_frames(3) t3 u refl refl] n
  have "receive demo_py ''chan-bob'' signal_to_two_words both_in = Inl TypeError"
    by (simp add: dict_get_def)
  ultimately show ?thesis using reachable_both_in u g a n demo_frames demo_names(5) by blast
qed

end
